theory Spec2Isabelle
  imports Main
begin

section \<open>Values, errors and the Python operations the code relies on\<close>

text \<open>
  The development follows \<^verbatim>\<open>src/RAG/cohere_pubmed_RAG_v2.py\<close>, class \<^verbatim>\<open>Documents\<close>.
  What \<^verbatim>\<open>json.load\<close> returns is a JSON value. A dict is kept as the list of its items in
  insertion order (the keys of a dict are distinct). Numbers carry an integer payload:
  no operation of the program looks inside a number. What the methods print is not
  modelled, and neither is the class \<^verbatim>\<open>Chatbot\<close>, which only forwards to
  \<^verbatim>\<open>Documents.retrieve\<close> and to the remote chat service.
\<close>

datatype json =
    JNull
  | JBool bool
  | JNum int
  | JStr string
  | JArr "json list"
  | JObj "(string \<times> json) list"

text \<open>
  The exceptions that can leave the methods of \<^verbatim>\<open>Documents\<close>. The program has no
  \<^verbatim>\<open>try\<close>/\<^verbatim>\<open>except\<close> and defines no exception class of its own: whatever is raised
  propagates to the caller unchanged. \<open>BackendError\<close> stands for an exception raised by
  the remote client (\<^verbatim>\<open>co.embed\<close>, \<^verbatim>\<open>co.rerank\<close>).
\<close>

datatype py_error =
    KeyError string
  | TypeError
  | IndexError
  | ValueError
  | AttributeError
  | RuntimeError
  | OSError
  | JSONDecodeError
  | BackendError string

text \<open>\<^verbatim>\<open>for x in v\<close>: the items a JSON value yields when iterated, or \<^verbatim>\<open>TypeError\<close>.\<close>

fun py_iter :: "json \<Rightarrow> py_error + json list" where
  "py_iter (JArr xs) = Inr xs"
| "py_iter (JObj kvs) = Inr (map (\<lambda>kv. JStr (fst kv)) kvs)"
| "py_iter (JStr s) = Inr (map (\<lambda>c. JStr [c]) s)"
| "py_iter JNull = Inl TypeError"
| "py_iter (JBool b) = Inl TypeError"
| "py_iter (JNum n) = Inl TypeError"

text \<open>\<^verbatim>\<open>v[key]\<close> with a string key: only a dict accepts it.\<close>

fun py_getitem :: "json \<Rightarrow> string \<Rightarrow> py_error + json" where
  "py_getitem (JObj kvs) k = (case map_of kvs k of None \<Rightarrow> Inl (KeyError k) | Some v \<Rightarrow> Inr v)"
| "py_getitem (JArr xs) k = Inl TypeError"
| "py_getitem (JStr s) k = Inl TypeError"
| "py_getitem JNull k = Inl TypeError"
| "py_getitem (JBool b) k = Inl TypeError"
| "py_getitem (JNum n) k = Inl TypeError"

text \<open>
  A \<^verbatim>\<open>for\<close> loop that appends one computed element per item to a list and is left by the
  first exception.
\<close>

fun for_append :: "('a \<Rightarrow> py_error + 'b) \<Rightarrow> 'a list \<Rightarrow> py_error + 'b list" where
  "for_append f [] = Inr []"
| "for_append f (x # xs) =
     (case f x of
        Inl e \<Rightarrow> Inl e
      | Inr y \<Rightarrow> (case for_append f xs of Inl e \<Rightarrow> Inl e | Inr ys \<Rightarrow> Inr (y # ys)))"

text \<open>\<^verbatim>\<open>xs[i]\<close> on a Python list with an unsigned index (a label of the index).\<close>

definition list_getitem :: "'a list \<Rightarrow> nat \<Rightarrow> py_error + 'a" where
  "list_getitem xs i = (if i < length xs then Inr (xs ! i) else Inl IndexError)"

text \<open>\<^verbatim>\<open>a[i]\<close> on a one-dimensional array with a Python integer: a negative index counts from the end.\<close>

definition array_getitem :: "'a list \<Rightarrow> int \<Rightarrow> py_error + 'a" where
  "array_getitem xs i =
     (if 0 \<le> i \<and> i < int (length xs) then Inr (xs ! nat i)
      else if i < 0 \<and> - int (length xs) \<le> i then Inr (xs ! nat (int (length xs) + i))
      else Inl IndexError)"

text \<open>\<^verbatim>\<open>xs[i:j]\<close> for \<open>0 \<le> i\<close>, \<open>0 \<le> j\<close>.\<close>

definition py_slice :: "'a list \<Rightarrow> nat \<Rightarrow> nat \<Rightarrow> 'a list" where
  "py_slice xs i j = take (j - i) (drop i xs)"

section \<open>The data of a \<^verbatim>\<open>Documents\<close> object\<close>

text \<open>
  A passage is the dict \<^verbatim>\<open>{"title": ..., "text": ...}\<close> that \<^verbatim>\<open>load\<close> builds; the field
  \<open>text'\<close> is its key \<^verbatim>\<open>"text"\<close>. Its position in \<^verbatim>\<open>self.docs\<close> is its identity.
\<close>

record passage =
  title :: json
  text' :: json

text \<open>The \<^verbatim>\<open>input_type\<close> argument of \<^verbatim>\<open>co.embed\<close>: \<^verbatim>\<open>"search_document"\<close> or \<^verbatim>\<open>"search_query"\<close>.\<close>

datatype input_type = SearchDocument | SearchQuery

text \<open>
  The remote client \<^verbatim>\<open>co\<close>. Its code is not part of the repository, so its two operations
  are parameters. A call may fail and may change the state \<open>'w\<close> of the outside world (the
  service, a recording mock); \<open>'v\<close> is the type of an embedding vector. A rerank result is
  represented by its attribute \<^verbatim>\<open>index\<close>, the only one the program reads. The constant
  \<^verbatim>\<open>model\<close> arguments are left out.
\<close>

record ('w, 'v) client =
  co_embed :: "json list \<Rightarrow> input_type \<Rightarrow> 'w \<Rightarrow> (py_error + 'v list) \<times> 'w"
  co_rerank :: "string \<Rightarrow> json list \<Rightarrow> int \<Rightarrow> 'w \<Rightarrow> (py_error + int list) \<times> 'w"

text \<open>
  The \<^verbatim>\<open>hnswlib.Index\<close> object belongs to a library whose code is not in the repository.
  The state of an index object is kept as a record: the arguments it was created and
  initialised with, and the labelled vectors it holds.
\<close>

record 'v hnsw_index =
  space :: string
  dim :: nat
  max_elements :: nat
  ef_construction :: nat
  hnsw_M :: nat
  items :: "(nat \<times> 'v) list"

definition hnswlib_Index :: "string \<Rightarrow> nat \<Rightarrow> 'v hnsw_index" where
  "hnswlib_Index sp d =
     \<lparr>space = sp, dim = d, max_elements = 0, ef_construction = 0, hnsw_M = 0, items = []\<rparr>"

definition get_current_count :: "'v hnsw_index \<Rightarrow> nat" where
  "get_current_count ix = length (items ix)"

text \<open>
  The operations \<^verbatim>\<open>init_index(max_elements, ef_construction, M)\<close> and
  \<^verbatim>\<open>add_items(data, ids)\<close> of the library are parameters: each returns the index object as
  the call leaves it, or the exception the library raises.
\<close>

record 'v index_library =
  lib_init_index :: "'v hnsw_index \<Rightarrow> nat \<Rightarrow> nat \<Rightarrow> nat \<Rightarrow> py_error + 'v hnsw_index"
  lib_add_items :: "'v hnsw_index \<Rightarrow> 'v list \<Rightarrow> nat list \<Rightarrow> py_error + 'v hnsw_index"

text \<open>
  Modelled from the spec: the two operations as the spec's Vector Index contract describes
  them, where \<^emph>\<open>build\<close> allocates a fresh index sized to the number of vectors and inserts
  each vector keyed by its position, and no failure of \<^emph>\<open>build\<close> is mentioned.
\<close>

definition init_index :: "'v hnsw_index \<Rightarrow> nat \<Rightarrow> nat \<Rightarrow> nat \<Rightarrow> 'v hnsw_index" where
  "init_index ix n ef m = ix\<lparr>max_elements := n, ef_construction := ef, hnsw_M := m\<rparr>"

definition add_items :: "'v hnsw_index \<Rightarrow> 'v list \<Rightarrow> nat list \<Rightarrow> 'v hnsw_index" where
  "add_items ix data ids = ix\<lparr>items := items ix @ zip ids data\<rparr>"

definition spec_library :: "'v index_library" where
  "spec_library =
     \<lparr>lib_init_index = (\<lambda>ix n ef m. Inr (init_index ix n ef m)),
      lib_add_items = (\<lambda>ix data ids. Inr (add_items ix data ids))\<rparr>"

text \<open>
  \<^verbatim>\<open>index.knn_query(data, k)\<close> is approximate search inside the same library: a parameter.
  It returns the matrix of labels, one row per query vector (the distances, the second
  component of the library's result, are never read), or fails.
\<close>

type_synonym 'v knn = "'v hnsw_index \<Rightarrow> 'v list \<Rightarrow> int \<Rightarrow> py_error + nat list list"

text \<open>
  The attributes of a \<^verbatim>\<open>Documents\<close> object. \<^verbatim>\<open>docs_len\<close> does not exist before \<^verbatim>\<open>embed\<close>
  has run, and \<^verbatim>\<open>self.index\<close> is an index object only after \<^verbatim>\<open>index\<close> has run.
\<close>

record ('w, 'v) documents =
  sources :: "(string \<times> string) list list option"
  docs :: "passage list"
  docs_embs :: "'v list"
  retrieve_top_k :: int
  rerank_top_k :: int
  co :: "('w, 'v) client"
  docs_len :: "nat option"
  index :: "'v hnsw_index option"

section \<open>\<^verbatim>\<open>Documents.load\<close>\<close>

text \<open>
  The inner loop of \<^verbatim>\<open>load\<close> (lines 36 to 43): \<^verbatim>\<open>article["FullText"]\<close> is evaluated once
  and iterated; \<^verbatim>\<open>article["Title"]\<close> is evaluated once per text, inside the loop.
\<close>

definition load_article :: "json \<Rightarrow> py_error + passage list" where
  "load_article article =
     (case py_getitem article ''FullText'' of
        Inl e \<Rightarrow> Inl e
      | Inr full_text \<Rightarrow>
          (case py_iter full_text of
             Inl e \<Rightarrow> Inl e
           | Inr texts \<Rightarrow>
               for_append
                 (\<lambda>t. case py_getitem article ''Title'' of
                         Inl e \<Rightarrow> Inl e
                       | Inr ti \<Rightarrow> Inr \<lparr>title = ti, text' = t\<rparr>)
                 texts))"

text \<open>
  The outer loop (lines 33 to 45): the counter is tested against 0 before anything of the
  article is read, and decremented after the article's passages are appended.
\<close>

fun load_loop :: "json list \<Rightarrow> int \<Rightarrow> passage list \<Rightarrow> py_error + passage list" where
  "load_loop [] max_articles ds = Inr ds"
| "load_loop (article # rest) max_articles ds =
     (if max_articles = 0 then Inr ds
      else case load_article article of
             Inl e \<Rightarrow> Inl e
           | Inr article_dict \<Rightarrow> load_loop rest (max_articles - 1) (ds @ article_dict))"

text \<open>
  \<^verbatim>\<open>load\<close>. The file system is the function \<open>fs\<close>: what \<^verbatim>\<open>open\<close> followed by \<^verbatim>\<open>json.load\<close>
  yields for a path, the parsed value or the exception raised.
\<close>

definition Documents_load ::
  "(string \<Rightarrow> py_error + json) \<Rightarrow> ('w, 'v) documents \<Rightarrow> int \<Rightarrow> py_error + ('w, 'v) documents"
where
  "Documents_load fs self max_articles =
     (case fs ''datasets/xray_articles.json'' of
        Inl e \<Rightarrow> Inl e
      | Inr doc \<Rightarrow>
          (case py_iter doc of
             Inl e \<Rightarrow> Inl e
           | Inr articles \<Rightarrow>
               (case load_loop articles max_articles (docs self) of
                  Inl e \<Rightarrow> Inl e
                | Inr ds \<Rightarrow> Inr (self\<lparr>docs := ds\<rparr>))))"

section \<open>\<^verbatim>\<open>Documents.embed\<close>\<close>

text \<open>
  The loop \<^verbatim>\<open>for i in range(0, self.docs_len, batch_size)\<close> with the loop variable \<open>i\<close> and
  the list \<^verbatim>\<open>self.docs_embs\<close> built so far.
\<close>

function embed_loop ::
  "('w, 'v) client \<Rightarrow> passage list \<Rightarrow> nat \<Rightarrow> nat \<Rightarrow> nat \<Rightarrow> 'v list \<Rightarrow> 'w
     \<Rightarrow> (py_error + 'v list) \<times> 'w"
where
  "embed_loop c ds n batch_size i embs w =
     (if i < n \<and> 0 < batch_size then
        (case co_embed c (map text' (py_slice ds i (min (i + batch_size) n))) SearchDocument w of
           (Inl e, w') \<Rightarrow> (Inl e, w')
         | (Inr docs_embs_batch, w') \<Rightarrow>
             embed_loop c ds n batch_size (i + batch_size) (embs @ docs_embs_batch) w')
      else (Inr embs, w))"
  by pat_completeness auto
termination
  by (relation "measure (\<lambda>(c, ds, n, batch_size, i, embs, w). n - i)") auto

text \<open>\<^verbatim>\<open>range(0, n, batch_size)\<close> raises \<^verbatim>\<open>ValueError\<close> for a step of 0.\<close>

definition embed_batches ::
  "('w, 'v) client \<Rightarrow> passage list \<Rightarrow> nat \<Rightarrow> nat \<Rightarrow> 'v list \<Rightarrow> 'w \<Rightarrow> (py_error + 'v list) \<times> 'w"
where
  "embed_batches c ds n batch_size embs w =
     (if batch_size = 0 then (Inl ValueError, w) else embed_loop c ds n batch_size 0 embs w)"

definition Documents_embed ::
  "('w, 'v) documents \<Rightarrow> 'w \<Rightarrow> (py_error + ('w, 'v) documents) \<times> 'w"
where
  "Documents_embed self w =
     (let batch_size = 90;
          self1 = self\<lparr>docs_len := Some (length (docs self))\<rparr>
      in case embed_batches (co self1) (docs self1) (length (docs self)) batch_size
                (docs_embs self1) w of
           (Inl e, w') \<Rightarrow> (Inl e, w')
         | (Inr embs, w') \<Rightarrow> (Inr (self1\<lparr>docs_embs := embs\<rparr>), w'))"

section \<open>\<^verbatim>\<open>Documents.index\<close>\<close>

text \<open>
  Lines 73 to 75. \<^verbatim>\<open>self.docs_len\<close> is read for \<^verbatim>\<open>init_index\<close>; whatever the library
  raises propagates.
\<close>

definition Documents_index ::
  "'v index_library \<Rightarrow> ('w, 'v) documents \<Rightarrow> py_error + ('w, 'v) documents"
where
  "Documents_index lib self =
     (case docs_len self of
        None \<Rightarrow> Inl AttributeError
      | Some n \<Rightarrow>
          (case lib_init_index lib (hnswlib_Index ''ip'' 1024) n 512 64 of
             Inl e \<Rightarrow> Inl e
           | Inr ix0 \<Rightarrow>
               (case lib_add_items lib ix0 (docs_embs self) [0 ..< length (docs_embs self)] of
                  Inl e \<Rightarrow> Inl e
                | Inr ix \<Rightarrow> Inr (self\<lparr>index := Some ix\<rparr>))))"

section \<open>\<^verbatim>\<open>Documents.__init__\<close>\<close>

text \<open>Lines 14 to 19: the attributes the constructor assigns before it calls \<^verbatim>\<open>load\<close>.\<close>

definition new_documents ::
  "(string \<times> string) list list option \<Rightarrow> ('w, 'v) client \<Rightarrow> ('w, 'v) documents"
where
  "new_documents srcs c =
     \<lparr>sources = srcs, docs = [], docs_embs = [], retrieve_top_k = 500, rerank_top_k = 100,
      co = c, docs_len = None, index = None\<rparr>"

text \<open>
  Lines 20 to 22: \<^verbatim>\<open>load\<close> with its default bound of 500, \<^verbatim>\<open>embed\<close>, \<^verbatim>\<open>index\<close>. An
  exception leaves the constructor, and no object exists then.
\<close>

definition Documents_init ::
  "'v index_library \<Rightarrow> (string \<times> string) list list option \<Rightarrow> ('w, 'v) client
     \<Rightarrow> (string \<Rightarrow> py_error + json) \<Rightarrow> 'w \<Rightarrow> (py_error + ('w, 'v) documents) \<times> 'w"
where
  "Documents_init lib srcs c fs w =
     (case Documents_load fs (new_documents srcs c) 500 of
        Inl e \<Rightarrow> (Inl e, w)
      | Inr self1 \<Rightarrow>
          (case Documents_embed self1 w of
             (Inl e, w1) \<Rightarrow> (Inl e, w1)
           | (Inr self2, w1) \<Rightarrow>
               (case Documents_index lib self2 of
                  Inl e \<Rightarrow> (Inl e, w1)
                | Inr self3 \<Rightarrow> (Inr self3, w1))))"

section \<open>\<^verbatim>\<open>Documents.retrieve\<close>\<close>

text \<open>Line 96: \<^verbatim>\<open>self.index.knn_query(query_emb, k=self.retrieve_top_k)[0][0]\<close>.\<close>

definition search_row ::
  "'v knn \<Rightarrow> ('w, 'v) documents \<Rightarrow> 'v list \<Rightarrow> py_error + nat list"
where
  "search_row knn_query self query_emb =
     (case index self of
        None \<Rightarrow> Inl AttributeError
      | Some ix \<Rightarrow>
          (case knn_query ix query_emb (retrieve_top_k self) of
             Inl e \<Rightarrow> Inl e
           | Inr labels \<Rightarrow> (case labels of [] \<Rightarrow> Inl IndexError | row # _ \<Rightarrow> Inr row)))"

text \<open>
  \<^verbatim>\<open>retrieve\<close> returns its result (or the exception), the object \<^verbatim>\<open>self\<close> as the call leaves
  it, and the outside world.
\<close>

definition Documents_retrieve ::
  "'v knn \<Rightarrow> ('w, 'v) documents \<Rightarrow> string \<Rightarrow> 'w
     \<Rightarrow> (py_error + passage list) \<times> ('w, 'v) documents \<times> 'w"
where
  "Documents_retrieve knn_query self query w =
     (case co_embed (co self) [JStr query] SearchQuery w of
        (Inl e, w1) \<Rightarrow> (Inl e, self, w1)
      | (Inr query_emb, w1) \<Rightarrow>
     (case search_row knn_query self query_emb of
        Inl e \<Rightarrow> (Inl e, self, w1)
      | Inr doc_ids \<Rightarrow>
     (case for_append (\<lambda>doc_id. case list_getitem (docs self) doc_id of
                                  Inl e \<Rightarrow> Inl e | Inr d \<Rightarrow> Inr (text' d)) doc_ids of
        Inl e \<Rightarrow> (Inl e, self, w1)
      | Inr docs_to_rerank \<Rightarrow>
     (case co_rerank (co self) query docs_to_rerank (rerank_top_k self) w1 of
        (Inl e, w2) \<Rightarrow> (Inl e, self, w2)
      | (Inr rerank_results, w2) \<Rightarrow>
     (case for_append (array_getitem doc_ids) rerank_results of
        Inl e \<Rightarrow> (Inl e, self, w2)
      | Inr doc_ids_reranked \<Rightarrow>
     (case for_append (\<lambda>doc_id. case list_getitem (docs self) doc_id of
                                  Inl e \<Rightarrow> Inl e
                                | Inr d \<Rightarrow> Inr \<lparr>title = title d, text' = text' d\<rparr>)
             doc_ids_reranked of
        Inl e \<Rightarrow> (Inl e, self, w2)
      | Inr docs_retrieved \<Rightarrow> (Inr docs_retrieved, self, w2)))))))"

section \<open>Vocabulary of the properties\<close>

text \<open>
  The persisted input format: a collection is a list of entries, each an object with a
  title and a list of text sections. \<open>field\<close> reads a key of an object and is \<open>None\<close> for
  a missing key and for a value that is not an object.
\<close>

fun field :: "json \<Rightarrow> string \<Rightarrow> json option" where
  "field (JObj kvs) k = map_of kvs k"
| "field (JArr xs) k = None"
| "field (JStr s) k = None"
| "field JNull k = None"
| "field (JBool b) k = None"
| "field (JNum n) k = None"

definition well_formed_entry :: "json \<Rightarrow> bool" where
  "well_formed_entry a =
     (case (field a ''Title'', field a ''FullText'') of
        (Some t, Some (JArr secs)) \<Rightarrow> True
      | _ \<Rightarrow> False)"

definition entry_sections :: "json \<Rightarrow> json list" where
  "entry_sections a = (case field a ''FullText'' of Some (JArr secs) \<Rightarrow> secs | _ \<Rightarrow> [])"

definition entry_title :: "json \<Rightarrow> json" where
  "entry_title a = (case field a ''Title'' of Some t \<Rightarrow> t | None \<Rightarrow> JNull)"

text \<open>The passages expected of one entry: one per text section, each with the entry's title.\<close>

definition entry_passages :: "json \<Rightarrow> passage list" where
  "entry_passages a = map (\<lambda>t. \<lparr>title = entry_title a, text' = t\<rparr>) (entry_sections a)"

text \<open>
  An entry that \<^verbatim>\<open>load\<close> cannot process: it has no \<^verbatim>\<open>"FullText"\<close> (or is no object), or
  its \<^verbatim>\<open>"FullText"\<close> cannot be iterated, or it has no \<^verbatim>\<open>"Title"\<close> while its \<^verbatim>\<open>"FullText"\<close>
  yields at least one text.
\<close>

definition unreadable_entry :: "json \<Rightarrow> bool" where
  "unreadable_entry a =
     (case field a ''FullText'' of
        None \<Rightarrow> True
      | Some full_text \<Rightarrow>
          (case py_iter full_text of
             Inl e \<Rightarrow> True
           | Inr texts \<Rightarrow> texts \<noteq> [] \<and> field a ''Title'' = None))"

text \<open>The exception an entry that cannot be processed makes \<^verbatim>\<open>load\<close> raise.\<close>

fun entry_error :: "json \<Rightarrow> py_error" where
  "entry_error (JObj kvs) =
     (case map_of kvs ''FullText'' of
        None \<Rightarrow> KeyError ''FullText''
      | Some full_text \<Rightarrow>
          (case py_iter full_text of Inl e \<Rightarrow> TypeError | Inr texts \<Rightarrow> KeyError ''Title''))"
| "entry_error (JArr xs) = TypeError"
| "entry_error (JStr s) = TypeError"
| "entry_error JNull = TypeError"
| "entry_error (JBool b) = TypeError"
| "entry_error (JNum n) = TypeError"

section \<open>Test doubles and example data\<close>

text \<open>
  A recording mock of the client: the world is the log of the calls made. The vector of a
  text is the text's own characters, and \<^verbatim>\<open>rerank\<close> always returns the candidates in
  reverse input order, cut to \<^verbatim>\<open>top_n\<close>.
\<close>

datatype call = EmbedCall "json list" input_type | RerankCall string "json list" int

fun mock_vector :: "json \<Rightarrow> string" where
  "mock_vector (JStr s) = s"
| "mock_vector (JArr xs) = []"
| "mock_vector (JObj kvs) = []"
| "mock_vector JNull = []"
| "mock_vector (JBool b) = []"
| "mock_vector (JNum n) = []"

definition recording_client :: "(call list, string) client" where
  "recording_client =
     \<lparr>co_embed = (\<lambda>texts mode w. (Inr (map mock_vector texts), w @ [EmbedCall texts mode])),
      co_rerank = (\<lambda>query ds top_n w.
         (Inr (take (nat top_n) (rev (map int [0 ..< length ds]))),
          w @ [RerankCall query ds top_n]))\<rparr>"

text \<open>Two documents titled A and B with three and two text sections.\<close>

definition two_documents :: "json list" where
  "two_documents =
     [JObj [(''Title'', JStr ''A''), (''FullText'', JArr [JStr ''a0'', JStr ''a1'', JStr ''a2''])],
      JObj [(''Title'', JStr ''B''), (''FullText'', JArr [JStr ''b0'', JStr ''b1''])]]"

definition example_fs :: "string \<Rightarrow> py_error + json" where
  "example_fs path =
     (if path = ''datasets/xray_articles.json'' then Inr (JArr two_documents) else Inl OSError)"

text \<open>A collection whose only entry has no title and an empty list of text sections.\<close>

definition untitled_fs :: "string \<Rightarrow> py_error + json" where
  "untitled_fs path = Inr (JArr [JObj [(''FullText'', JArr [])]])"

text \<open>A collection whose second entry has no list of text sections.\<close>

definition truncated_fs :: "string \<Rightarrow> py_error + json" where
  "truncated_fs path =
     Inr (JArr [JObj [(''Title'', JStr ''A''), (''FullText'', JArr [JStr ''a0''])],
                JObj [(''Title'', JStr ''B'')]])"

text \<open>
  A collection of two entries that cannot be processed, for different reasons: the first
  has no list of text sections, the second has a text section and no title.
\<close>

definition two_bad_fs :: "string \<Rightarrow> py_error + json" where
  "two_bad_fs path =
     Inr (JArr [JObj [(''Title'', JStr ''A'')],
                JObj [(''FullText'', JArr [JStr ''x''])]])"

text \<open>
  An index library that refuses an empty batch of vectors with \<^verbatim>\<open>RuntimeError\<close>, as
  \<^verbatim>\<open>hnswlib\<close> does, and otherwise does what the spec describes.
\<close>

definition strict_library :: "'v index_library" where
  "strict_library =
     \<lparr>lib_init_index = (\<lambda>ix n ef m. Inr (init_index ix n ef m)),
      lib_add_items = (\<lambda>ix data ids.
         if data = [] then Inl RuntimeError else Inr (add_items ix data ids))\<rparr>"

text \<open>
  The consecutive batches of at most \<open>n\<close> items a list is cut into.
\<close>

function batches :: "nat \<Rightarrow> 'a list \<Rightarrow> 'a list list" where
  "batches n xs = (if n = 0 \<or> xs = [] then [] else take n xs # batches n (drop n xs))"
  by pat_completeness auto
termination
  by (relation "measure (\<lambda>(n, xs). length xs)") auto

declare batches.simps [simp del]

text \<open>
  A mock of the index search: for every query vector, the \<open>k\<close> highest labels, highest
  first.
\<close>

definition mock_knn :: "string knn" where
  "mock_knn ix query_emb k = Inr (map (\<lambda>q. take (nat k) (rev (map fst (items ix)))) query_emb)"

text \<open>
  A probe around a search: it raises \<^verbatim>\<open>RuntimeError\<close> whenever it is asked for more
  neighbours than the index holds, and otherwise answers as the search does.
\<close>

definition guard_k :: "'v knn \<Rightarrow> 'v knn" where
  "guard_k knn_query ix data k =
     (if int (get_current_count ix) < k then Inl RuntimeError else knn_query ix data k)"

text \<open>
  The five passages of \<open>two_documents\<close>, the object the constructor builds from them with
  the recording mock, and the same object with \<^verbatim>\<open>retrieve_top_k = 3\<close> and
  \<^verbatim>\<open>rerank_top_k = 2\<close>.
\<close>

definition five_passages :: "passage list" where
  "five_passages =
     [\<lparr>title = JStr ''A'', text' = JStr ''a0''\<rparr>,
      \<lparr>title = JStr ''A'', text' = JStr ''a1''\<rparr>,
      \<lparr>title = JStr ''A'', text' = JStr ''a2''\<rparr>,
      \<lparr>title = JStr ''B'', text' = JStr ''b0''\<rparr>,
      \<lparr>title = JStr ''B'', text' = JStr ''b1''\<rparr>]"

definition built_documents :: "(call list, string) documents" where
  "built_documents =
     \<lparr>sources = None, docs = five_passages,
      docs_embs = [''a0'', ''a1'', ''a2'', ''b0'', ''b1''],
      retrieve_top_k = 500, rerank_top_k = 100, co = recording_client,
      docs_len = Some 5,
      index = Some \<lparr>space = ''ip'', dim = 1024, max_elements = 5, ef_construction = 512,
                     hnsw_M = 64,
                     items = [(0, ''a0''), (1, ''a1''), (2, ''a2''), (3, ''b0''), (4, ''b1'')]\<rparr>\<rparr>"

definition scenario_documents :: "(call list, string) documents" where
  "scenario_documents = built_documents\<lparr>retrieve_top_k := 3, rerank_top_k := 2\<rparr>"

text \<open>
  Two mocks of a backend that is down: one fails every \<^verbatim>\<open>embed\<close> call, the other every
  \<^verbatim>\<open>rerank\<close> call.
\<close>

definition embed_down_client :: "(call list, string) client" where
  "embed_down_client =
     recording_client\<lparr>co_embed := (\<lambda>texts mode w.
        (Inl (BackendError ''embed''), w @ [EmbedCall texts mode]))\<rparr>"

definition rerank_down_client :: "(call list, string) client" where
  "rerank_down_client =
     recording_client\<lparr>co_rerank := (\<lambda>query ds top_n w.
        (Inl (BackendError ''rerank''), w @ [RerankCall query ds top_n]))\<rparr>"

section \<open>Auxiliary facts\<close>

lemma for_append_total:
  "(\<And>x. x \<in> set xs \<Longrightarrow> f x = Inr (g x)) \<Longrightarrow> for_append f xs = Inr (map g xs)"
  by (induction xs) auto

lemma for_append_fails:
  "xs \<noteq> [] \<Longrightarrow> (\<And>x. f x = Inl e) \<Longrightarrow> for_append f xs = Inl e"
  by (cases xs) auto

lemma for_append_error_source:
  "for_append f xs = Inl e \<Longrightarrow> \<exists>x \<in> set xs. f x = Inl e"
  by (induction xs) (auto split: sum.splits)

lemma for_append_results:
  "for_append f xs = Inr ys \<Longrightarrow> list_all2 (\<lambda>x y. f x = Inr y) xs ys"
  by (induction xs arbitrary: ys) (auto split: sum.splits)

lemma py_getitem_field:
  "field a k = Some v \<Longrightarrow> py_getitem a k = Inr v"
  by (cases a) auto

lemma py_getitem_no_field:
  "field a k = None \<Longrightarrow> py_getitem a k = Inl (KeyError k) \<or> py_getitem a k = Inl TypeError"
  by (cases a) auto

lemma py_getitem_error_kind:
  "py_getitem a k = Inl e \<Longrightarrow> e = KeyError k \<or> e = TypeError"
  by (cases a) (auto split: option.splits)

lemma py_iter_error_kind: "py_iter v = Inl e \<Longrightarrow> e = TypeError"
  by (cases v) auto

lemma concat_nth_offset:
  "d < length xss \<Longrightarrow> s < length (xss ! d) \<Longrightarrow>
     concat xss ! (sum_list (map length (take d xss)) + s) = xss ! d ! s"
proof (induction xss arbitrary: d)
  case Nil
  then show ?case by simp
next
  case (Cons xs xss)
  then show ?case by (cases d) (simp_all add: nth_append)
qed

lemma distinct_bounded_nat:
  assumes "distinct (xs :: nat list)" "\<forall>i \<in> set xs. i < n"
  shows "length xs \<le> n"
proof -
  have "card (set xs) \<le> card {..<n}"
    using assms(2) by (intro card_mono) auto
  with assms(1) show ?thesis by (simp add: distinct_card)
qed

lemma distinct_bounded_int:
  assumes "distinct (rs :: int list)" "\<forall>r \<in> set rs. 0 \<le> r \<and> r < int n"
  shows "length rs \<le> n"
proof -
  have "card (set rs) \<le> card {0 ..< int n}"
    using assms(2) by (intro card_mono) auto
  with assms(1) show ?thesis by (simp add: distinct_card)
qed

subsection \<open>\<^verbatim>\<open>load\<close>\<close>

lemma load_article_well_formed:
  assumes "well_formed_entry a"
  shows "load_article a = Inr (entry_passages a)"
proof -
  from assms obtain t secs where t: "field a ''Title'' = Some t"
    and s: "field a ''FullText'' = Some (JArr secs)"
    by (auto simp: well_formed_entry_def split: option.splits json.splits)
  have "for_append (\<lambda>x. case py_getitem a ''Title'' of Inl e \<Rightarrow> Inl e
                          | Inr ti \<Rightarrow> Inr \<lparr>title = ti, text' = x\<rparr>) secs
        = Inr (map (\<lambda>x. \<lparr>title = t, text' = x\<rparr>) secs)"
    by (rule for_append_total) (simp add: py_getitem_field [OF t])
  then show ?thesis
    by (simp add: load_article_def py_getitem_field [OF s] entry_passages_def
        entry_title_def entry_sections_def t s)
qed

lemma load_loop_well_formed:
  "\<forall>a \<in> set arts. well_formed_entry a \<Longrightarrow> 0 \<le> n \<Longrightarrow>
     load_loop arts n ds = Inr (ds @ concat (map entry_passages (take (nat n) arts)))"
proof (induction arts arbitrary: n ds)
  case Nil
  then show ?case by simp
next
  case (Cons a arts)
  show ?case
  proof (cases "n = 0")
    case True
    then show ?thesis by simp
  next
    case False
    with Cons.prems have pos: "0 < n" by simp
    then have tk: "take (nat n) (a # arts) = a # take (nat (n - 1)) arts"
      by (simp add: take_Cons' nat_diff_distrib)
    from Cons.prems have "well_formed_entry a" by simp
    then have la: "load_article a = Inr (entry_passages a)"
      by (rule load_article_well_formed)
    from Cons.prems pos
    have "load_loop arts (n - 1) (ds @ entry_passages a)
          = Inr ((ds @ entry_passages a) @ concat (map entry_passages (take (nat (n - 1)) arts)))"
      by (intro Cons.IH) auto
    with False la tk show ?thesis by simp
  qed
qed

lemma load_article_unreadable:
  "(\<exists>e. load_article a = Inl e) \<longleftrightarrow> unreadable_entry a"
proof (cases "field a ''FullText''")
  case None
  with py_getitem_no_field [OF None] show ?thesis
    by (auto simp: load_article_def unreadable_entry_def)
next
  case (Some ft)
  note ft = py_getitem_field [OF Some]
  show ?thesis
  proof (cases "py_iter ft")
    case (Inl e)
    with Some ft show ?thesis by (simp add: load_article_def unreadable_entry_def)
  next
    case (Inr texts)
    show ?thesis
    proof (cases "field a ''Title''")
      case None
      from py_getitem_no_field [OF None] obtain e where e: "py_getitem a ''Title'' = Inl e"
        by auto
      show ?thesis
      proof (cases "texts = []")
        case True
        with Some ft Inr None show ?thesis by (simp add: load_article_def unreadable_entry_def)
      next
        case False
        then have "for_append (\<lambda>t. case py_getitem a ''Title'' of Inl e \<Rightarrow> Inl e
                      | Inr ti \<Rightarrow> Inr \<lparr>title = ti, text' = t\<rparr>) texts = Inl e"
          by (rule for_append_fails) (simp add: e)
        with Some ft Inr None False show ?thesis
          by (simp add: load_article_def unreadable_entry_def)
      qed
    next
      case (Some t)
      have "for_append (\<lambda>x. case py_getitem a ''Title'' of Inl e \<Rightarrow> Inl e
                          | Inr ti \<Rightarrow> Inr \<lparr>title = ti, text' = x\<rparr>) texts
        = Inr (map (\<lambda>x. \<lparr>title = t, text' = x\<rparr>) texts)"
        by (rule for_append_total) (simp add: py_getitem_field [OF Some])
      with \<open>field a ''FullText'' = Some ft\<close> ft Inr Some show ?thesis
        by (simp add: load_article_def unreadable_entry_def)
    qed
  qed
qed

lemma load_article_error_kind:
  assumes "load_article a = Inl e"
  shows "e = KeyError ''FullText'' \<or> e = KeyError ''Title'' \<or> e = TypeError"
proof (cases "py_getitem a ''FullText''")
  case (Inl e')
  with assms have "e' = e" by (simp add: load_article_def)
  with py_getitem_error_kind [OF Inl] show ?thesis by auto
next
  case ft: (Inr full_text)
  show ?thesis
  proof (cases "py_iter full_text")
    case (Inl e')
    with assms ft have "e' = e" by (simp add: load_article_def)
    with py_iter_error_kind [OF Inl] show ?thesis by simp
  next
    case (Inr texts)
    with assms ft have "for_append (\<lambda>t. case py_getitem a ''Title'' of Inl e \<Rightarrow> Inl e
                      | Inr ti \<Rightarrow> Inr \<lparr>title = ti, text' = t\<rparr>) texts = Inl e"
      by (simp add: load_article_def)
    from for_append_error_source [OF this]
    have "py_getitem a ''Title'' = Inl e" by (cases "py_getitem a ''Title''") auto
    from py_getitem_error_kind [OF this] show ?thesis by auto
  qed
qed

lemma load_loop_error_source:
  "load_loop arts n ds = Inl e \<Longrightarrow> \<exists>a \<in> set arts. load_article a = Inl e"
  by (induction arts n ds rule: load_loop.induct) (auto split: if_splits sum.splits)

lemma load_loop_fails_iff:
  "(\<exists>e. load_loop arts n ds = Inl e) \<longleftrightarrow>
     (\<exists>i < length arts. (n < 0 \<or> int i < n) \<and> unreadable_entry (arts ! i))"
proof (induction arts arbitrary: n ds)
  case Nil
  then show ?case by simp
next
  case (Cons a arts)
  show ?case
  proof (cases "n = 0")
    case True
    then show ?thesis by simp
  next
    case n: False
    show ?thesis
    proof (cases "load_article a")
      case (Inl e)
      then have "unreadable_entry a" using load_article_unreadable [of a] by auto
      moreover from n have "n < 0 \<or> int 0 < n" by auto
      ultimately have "\<exists>i < length (a # arts). (n < 0 \<or> int i < n) \<and> unreadable_entry ((a # arts) ! i)"
        by (intro exI [of _ 0]) simp
      moreover from n Inl have "\<exists>e. load_loop (a # arts) n ds = Inl e" by simp
      ultimately show ?thesis by blast
    next
      case (Inr ps)
      then have ok: "\<not> unreadable_entry a" using load_article_unreadable [of a] by auto
      from n Inr have step: "load_loop (a # arts) n ds = load_loop arts (n - 1) (ds @ ps)" by simp
      have "(\<exists>i < length (a # arts). (n < 0 \<or> int i < n) \<and> unreadable_entry ((a # arts) ! i))
            \<longleftrightarrow> (\<exists>j < length arts. (n < 0 \<or> int (Suc j) < n) \<and> unreadable_entry (arts ! j))"
        (is "?L \<longleftrightarrow> ?R")
      proof
        assume ?L
        then obtain i where i: "i < length (a # arts)" "n < 0 \<or> int i < n"
          "unreadable_entry ((a # arts) ! i)" by blast
        with ok obtain j where "i = Suc j" by (cases i) auto
        with i show ?R by auto
      next
        assume ?R
        then obtain j where "j < length arts" "n < 0 \<or> int (Suc j) < n" "unreadable_entry (arts ! j)"
          by blast
        then show ?L by (intro exI [of _ "Suc j"]) simp
      qed
      also have "\<dots> \<longleftrightarrow> (\<exists>j < length arts. (n - 1 < 0 \<or> int j < n - 1) \<and> unreadable_entry (arts ! j))"
        using n by (intro ex_cong1) auto
      also have "\<dots> \<longleftrightarrow> (\<exists>e. load_loop arts (n - 1) (ds @ ps) = Inl e)"
        by (rule Cons.IH [symmetric])
      finally show ?thesis using step by simp
    qed
  qed
qed

lemma load_article_entry_error:
  assumes "unreadable_entry a"
  shows "load_article a = Inl (entry_error a)"
proof (cases a)
  case (JObj kvs)
  show ?thesis
  proof (cases "map_of kvs ''FullText''")
    case None
    with JObj show ?thesis by (simp add: load_article_def)
  next
    case (Some full_text)
    show ?thesis
    proof (cases "py_iter full_text")
      case (Inl e)
      with py_iter_error_kind [OF Inl] JObj Some show ?thesis
        by (simp add: load_article_def)
    next
      case (Inr texts)
      with assms JObj Some have ne: "texts \<noteq> []" and no_title: "map_of kvs ''Title'' = None"
        by (simp_all add: unreadable_entry_def)
      from ne have "for_append (\<lambda>t. case py_getitem a ''Title'' of Inl e \<Rightarrow> Inl e
                      | Inr ti \<Rightarrow> Inr \<lparr>title = ti, text' = t\<rparr>) texts = Inl (KeyError ''Title'')"
        by (rule for_append_fails) (simp add: JObj no_title)
      with JObj Some Inr show ?thesis by (simp add: load_article_def)
    qed
  qed
qed (simp_all add: load_article_def)

lemma load_loop_first_unreadable:
  "i < length arts \<Longrightarrow> n < 0 \<or> int i < n \<Longrightarrow> unreadable_entry (arts ! i) \<Longrightarrow>
   \<forall>j < i. \<not> unreadable_entry (arts ! j) \<Longrightarrow>
     load_loop arts n ds = Inl (entry_error (arts ! i))"
proof (induction arts arbitrary: i n ds)
  case Nil
  then show ?case by simp
next
  case (Cons a arts)
  from Cons.prems(2) have n: "n \<noteq> 0" by auto
  show ?case
  proof (cases i)
    case 0
    with Cons.prems(3) have "load_article a = Inl (entry_error a)"
      by (simp add: load_article_entry_error)
    with 0 n show ?thesis by simp
  next
    case (Suc k)
    with Cons.prems(4) have "\<not> unreadable_entry a" by auto
    then obtain ps where ps: "load_article a = Inr ps"
      using load_article_unreadable [of a] by (cases "load_article a") auto
    have "load_loop arts (n - 1) (ds @ ps) = Inl (entry_error (arts ! k))"
    proof (rule Cons.IH)
      show "k < length arts" using Cons.prems(1) Suc by simp
      show "n - 1 < 0 \<or> int k < n - 1" using Cons.prems(2) Suc by auto
      show "unreadable_entry (arts ! k)" using Cons.prems(3) Suc by simp
      show "\<forall>j < k. \<not> unreadable_entry (arts ! j)" using Cons.prems(4) Suc by auto
    qed
    with n ps Suc show ?thesis by simp
  qed
qed

lemma Documents_load_sources:
  "Documents_load fs (self\<lparr>sources := s\<rparr>) n
     = map_sum id (\<lambda>d. d\<lparr>sources := s\<rparr>) (Documents_load fs self n)"
  by (simp add: Documents_load_def split: sum.splits)

lemma new_documents_sources: "new_documents s2 c = (new_documents s1 c)\<lparr>sources := s2\<rparr>"
  by (simp add: new_documents_def)

lemma example_load:
  "Documents_load example_fs (new_documents srcs c) 500 = Inr ((new_documents srcs c)\<lparr>docs := five_passages\<rparr>)"
  by (simp add: Documents_load_def example_fs_def two_documents_def load_article_def
      new_documents_def five_passages_def)

subsection \<open>\<^verbatim>\<open>embed\<close> and \<^verbatim>\<open>index\<close>\<close>

lemma batches_Nil: "batches n [] = []"
  by (subst batches.simps) simp

lemma batches_step: "0 < n \<Longrightarrow> xs \<noteq> [] \<Longrightarrow> batches n xs = take n xs # batches n (drop n xs)"
  by (subst batches.simps) simp

lemma concat_batches: "0 < n \<Longrightarrow> concat (batches n xs) = xs"
proof (induction n xs rule: batches.induct)
  case (1 n xs)
  show ?case
  proof (cases "xs = []")
    case True
    then show ?thesis by (simp add: batches_Nil)
  next
    case False
    with 1 show ?thesis by (simp add: batches_step)
  qed
qed

lemma batches_bounded: "0 < n \<Longrightarrow> b \<in> set (batches n xs) \<Longrightarrow> b \<noteq> [] \<and> length b \<le> n"
proof (induction n xs rule: batches.induct)
  case (1 n xs)
  show ?case
  proof (cases "xs = []")
    case True
    with 1 show ?thesis by (simp add: batches_Nil)
  next
    case False
    with 1 show ?thesis by (auto simp: batches_step)
  qed
qed

lemma embed_loop_done: "\<not> i < n \<Longrightarrow> embed_loop c ds n batch_size i embs w = (Inr embs, w)"
  by (subst embed_loop.simps) simp

lemma py_slice_batch:
  "i < length ds \<Longrightarrow> py_slice ds i (min (i + bs) (length ds)) = take bs (drop i ds)"
  by (simp add: py_slice_def min_def)

lemma embed_loop_batches:
  "0 < bs \<Longrightarrow>
   \<forall>texts u. texts \<noteq> [] \<and> length texts \<le> bs \<longrightarrow>
      fst (co_embed c texts SearchDocument u) = Inr (map vec texts) \<Longrightarrow>
   n = length ds \<Longrightarrow>
   embed_loop c ds n bs i embs w =
     (Inr (embs @ map (\<lambda>p. vec (text' p)) (drop i ds)),
      foldl (\<lambda>u b. snd (co_embed c (map text' b) SearchDocument u)) w (batches bs (drop i ds)))"
proof (induction c ds n bs i embs w rule: embed_loop.induct)
  case (1 c ds n bs i embs w)
  note bs = \<open>0 < bs\<close> and n = \<open>n = length ds\<close>
  show ?case
  proof (cases "i < n")
    case False
    with n show ?thesis by (simp add: embed_loop_done batches_Nil)
  next
    case True
    let ?batch = "take bs (drop i ds)"
    let ?texts = "map text' ?batch"
    have slice: "py_slice ds i (min (i + bs) n) = ?batch"
      using True n by (simp add: py_slice_batch)
    have ne: "?texts \<noteq> []" using True n bs by simp
    have "length ?texts \<le> bs" by simp
    with ne "1.prems"(2) have "fst (co_embed c ?texts SearchDocument w) = Inr (map vec ?texts)"
      by blast
    then obtain w' where call: "co_embed c ?texts SearchDocument w = (Inr (map vec ?texts), w')"
      by (cases "co_embed c ?texts SearchDocument w") simp
    have step: "embed_loop c ds n bs i embs w
                  = embed_loop c ds n bs (i + bs) (embs @ map vec ?texts) w'"
      by (subst embed_loop.simps) (simp add: True bs slice call)
    have ih: "embed_loop c ds n bs (i + bs) (embs @ map vec ?texts) w'
        = (Inr ((embs @ map vec ?texts) @ map (\<lambda>p. vec (text' p)) (drop (i + bs) ds)),
           foldl (\<lambda>u b. snd (co_embed c (map text' b) SearchDocument u)) w'
             (batches bs (drop (i + bs) ds)))"
      using True bs slice call "1.prems"(2) n
      by (intro "1.IH" [where x = "Inr (map vec ?texts)" and y = w']) simp_all
    have split: "drop i ds = ?batch @ drop (i + bs) ds"
      by (metis append_take_drop_id drop_drop add.commute)
    have vecs: "map vec ?texts @ map (\<lambda>p. vec (text' p)) (drop (i + bs) ds)
                  = map (\<lambda>p. vec (text' p)) (drop i ds)"
      by (subst (2) split) (simp add: comp_def)
    have "drop i ds \<noteq> []" using True n by simp
    then have bat: "batches bs (drop i ds) = ?batch # batches bs (drop (i + bs) ds)"
      using bs by (simp add: batches_step add.commute)
    show ?thesis
      unfolding step ih bat using vecs call by simp
  qed
qed

lemma Documents_embed_sources:
  "Documents_embed (self\<lparr>sources := s\<rparr>) w
     = map_prod (map_sum id (\<lambda>d. d\<lparr>sources := s\<rparr>)) id (Documents_embed self w)"
  by (simp add: Documents_embed_def split: sum.splits prod.splits)

lemma Documents_index_sources:
  "Documents_index lib (self\<lparr>sources := s\<rparr>)
     = map_sum id (\<lambda>d. d\<lparr>sources := s\<rparr>) (Documents_index lib self)"
  by (simp add: Documents_index_def split: option.splits sum.splits)

lemma upt_5: "[0 ..< 5] = [0, 1, 2, 3, 4]"
  by (simp add: upt_rec)

lemma example_init:
  "Documents_init spec_library None recording_client example_fs []
     = (Inr built_documents,
        [EmbedCall [JStr ''a0'', JStr ''a1'', JStr ''a2'', JStr ''b0'', JStr ''b1''] SearchDocument])"
proof -
  have emb: "embed_batches recording_client five_passages 5 90 [] []
      = (Inr [''a0'', ''a1'', ''a2'', ''b0'', ''b1''],
         [EmbedCall [JStr ''a0'', JStr ''a1'', JStr ''a2'', JStr ''b0'', JStr ''b1''] SearchDocument])"
    unfolding embed_batches_def
    by (subst embed_loop.simps)
       (simp add: embed_loop_done py_slice_def five_passages_def recording_client_def)
  have len: "length five_passages = 5" by (simp add: five_passages_def)
  show ?thesis
    unfolding Documents_init_def example_load
    by (simp add: Documents_embed_def new_documents_def len emb Documents_index_def
        spec_library_def add_items_def init_index_def hnswlib_Index_def built_documents_def
        upt_5)
qed

subsection \<open>\<^verbatim>\<open>retrieve\<close>\<close>

lemma texts_of_valid_ids:
  assumes "\<forall>i \<in> set doc_ids. i < length ds"
  shows "for_append (\<lambda>doc_id. case list_getitem ds doc_id of
                                  Inl e \<Rightarrow> Inl e | Inr d \<Rightarrow> Inr (text' d)) doc_ids
           = Inr (map (\<lambda>i. text' (ds ! i)) doc_ids)"
  using assms by (intro for_append_total) (simp add: list_getitem_def)

lemma passages_of_valid_ids:
  assumes "\<forall>i \<in> set ids. i < length (ds :: passage list)"
  shows "for_append (\<lambda>doc_id. case list_getitem ds doc_id of
                                  Inl e \<Rightarrow> Inl e
                                | Inr d \<Rightarrow> Inr \<lparr>title = title d, text' = text' d\<rparr>) ids
           = Inr (map (\<lambda>i. ds ! i) ids)"
  using assms by (intro for_append_total) (simp add: list_getitem_def)

lemma positions_of_valid_indices:
  assumes "\<forall>r \<in> set rs. 0 \<le> r \<and> r < int (length doc_ids)"
  shows "for_append (array_getitem doc_ids) rs = Inr (map (\<lambda>r. doc_ids ! nat r) rs)"
  using assms by (intro for_append_total) (simp add: array_getitem_def)

lemma search_row_first:
  "index self = Some ix \<Longrightarrow> knn_query ix query_emb (retrieve_top_k self) = Inr (doc_ids # other_rows)
     \<Longrightarrow> search_row knn_query self query_emb = Inr doc_ids"
  by (simp add: search_row_def)

lemma retrieve_returns:
  assumes "Documents_retrieve knn_query self query w = (Inr result, self', w')"
  shows "\<exists>query_emb w1 doc_ids texts rerank_results ids.
           co_embed (co self) [JStr query] SearchQuery w = (Inr query_emb, w1)
         \<and> search_row knn_query self query_emb = Inr doc_ids
         \<and> for_append (\<lambda>doc_id. case list_getitem (docs self) doc_id of
                                  Inl e \<Rightarrow> Inl e | Inr d \<Rightarrow> Inr (text' d)) doc_ids = Inr texts
         \<and> co_rerank (co self) query texts (rerank_top_k self) w1 = (Inr rerank_results, w')
         \<and> for_append (array_getitem doc_ids) rerank_results = Inr ids
         \<and> for_append (\<lambda>doc_id. case list_getitem (docs self) doc_id of
                                  Inl e \<Rightarrow> Inl e
                                | Inr d \<Rightarrow> Inr \<lparr>title = title d, text' = text' d\<rparr>) ids = Inr result
         \<and> self' = self"
  using assms unfolding Documents_retrieve_def
  by (auto split: prod.splits sum.splits)

lemma texts_resolved:
  "for_append (\<lambda>doc_id. case list_getitem ds doc_id of
                           Inl e \<Rightarrow> Inl e | Inr d \<Rightarrow> Inr (text' d)) doc_ids = Inr texts
   \<Longrightarrow> (\<forall>i \<in> set doc_ids. i < length ds) \<and> texts = map (\<lambda>i. text' (ds ! i)) doc_ids"
  by (induction doc_ids arbitrary: texts)
     (auto simp: list_getitem_def split: sum.splits if_splits)

lemma passages_resolved:
  "for_append (\<lambda>doc_id. case list_getitem ds doc_id of
                           Inl e \<Rightarrow> Inl e
                         | Inr d \<Rightarrow> Inr \<lparr>title = title d, text' = text' d\<rparr>) ids = Inr result
   \<Longrightarrow> result = map (\<lambda>i. ds ! i) ids"
  by (induction ids arbitrary: result)
     (auto simp: list_getitem_def split: sum.splits if_splits)

lemma positions_resolved:
  "for_append (array_getitem doc_ids) rs = Inr ids
   \<Longrightarrow> length ids = length rs \<and> set ids \<subseteq> set doc_ids
       \<and> (\<forall>r \<in> set rs. r < int (length doc_ids))"
  by (induction rs arbitrary: ids)
     (auto simp: array_getitem_def split: sum.splits if_splits)

lemma retrieve_keeps_self: "fst (snd (Documents_retrieve knn_query self query w)) = self"
  unfolding Documents_retrieve_def by (simp split: prod.splits sum.splits)

lemma retrieve_result_of:
  "fst (Documents_retrieve knn_query self query w) =
     (case fst (co_embed (co self) [JStr query] SearchQuery w) of
        Inl e \<Rightarrow> Inl e
      | Inr query_emb \<Rightarrow>
     (case search_row knn_query self query_emb of
        Inl e \<Rightarrow> Inl e
      | Inr doc_ids \<Rightarrow>
     (case for_append (\<lambda>doc_id. case list_getitem (docs self) doc_id of
                                  Inl e \<Rightarrow> Inl e | Inr d \<Rightarrow> Inr (text' d)) doc_ids of
        Inl e \<Rightarrow> Inl e
      | Inr docs_to_rerank \<Rightarrow>
     (case fst (co_rerank (co self) query docs_to_rerank (rerank_top_k self)
                  (snd (co_embed (co self) [JStr query] SearchQuery w))) of
        Inl e \<Rightarrow> Inl e
      | Inr rerank_results \<Rightarrow>
     (case for_append (array_getitem doc_ids) rerank_results of
        Inl e \<Rightarrow> Inl e
      | Inr doc_ids_reranked \<Rightarrow>
          for_append (\<lambda>doc_id. case list_getitem (docs self) doc_id of
                                  Inl e \<Rightarrow> Inl e
                                | Inr d \<Rightarrow> Inr \<lparr>title = title d, text' = text' d\<rparr>)
             doc_ids_reranked)))))"
  unfolding Documents_retrieve_def by (simp split: prod.splits sum.splits)

lemma retrieve_result_world:
  assumes det_embed: "\<forall>texts mode u v.
            fst (co_embed (co self) texts mode u) = fst (co_embed (co self) texts mode v)"
    and det_rerank: "\<forall>q ds n u v.
            fst (co_rerank (co self) q ds n u) = fst (co_rerank (co self) q ds n v)"
  shows "fst (Documents_retrieve knn_query self query u)
           = fst (Documents_retrieve knn_query self query v)"
proof -
  have e: "fst (co_embed (co self) [JStr query] SearchQuery u)
             = fst (co_embed (co self) [JStr query] SearchQuery v)"
    using det_embed by blast
  have r: "fst (co_rerank (co self) query ds (rerank_top_k self)
                  (snd (co_embed (co self) [JStr query] SearchQuery u)))
         = fst (co_rerank (co self) query ds (rerank_top_k self)
                  (snd (co_embed (co self) [JStr query] SearchQuery v)))" for ds
    using det_rerank by blast
  show ?thesis
    unfolding retrieve_result_of e r ..
qed

lemma retrieve_search_cong:
  assumes "\<And>q. search_row k1 self q = search_row k2 self q"
  shows "Documents_retrieve k1 self query w = Documents_retrieve k2 self query w"
  unfolding Documents_retrieve_def using assms
  by (simp cong: prod.case_cong sum.case_cong)

lemma nat_2: "nat 2 = Suc (Suc 0)"
  by simp

lemma scenario_facts:
  "co_embed (co scenario_documents) [JStr ''q''] SearchQuery []
     = (Inr [''q''], [EmbedCall [JStr ''q''] SearchQuery])"
  "index scenario_documents
     = Some \<lparr>space = ''ip'', dim = 1024, max_elements = 5, ef_construction = 512, hnsw_M = 64,
             items = [(0, ''a0''), (1, ''a1''), (2, ''a2''), (3, ''b0''), (4, ''b1'')]\<rparr>"
  "retrieve_top_k scenario_documents = 3"
  "rerank_top_k scenario_documents = 2"
  "docs scenario_documents = five_passages"
  by (simp_all add: scenario_documents_def built_documents_def recording_client_def)

lemma scenario_search:
  "mock_knn \<lparr>space = ''ip'', dim = 1024, max_elements = 5, ef_construction = 512, hnsw_M = 64,
             items = [(0, ''a0''), (1, ''a1''), (2, ''a2''), (3, ''b0''), (4, ''b1'')]\<rparr>
      [''q''] (retrieve_top_k scenario_documents) = Inr [[4, 3, 2]]"
  by (simp add: mock_knn_def scenario_facts)

lemma scenario_retrieve:
  "Documents_retrieve mock_knn scenario_documents ''q'' w
     = (Inr [\<lparr>title = JStr ''A'', text' = JStr ''a2''\<rparr>, \<lparr>title = JStr ''B'', text' = JStr ''b0''\<rparr>],
        scenario_documents,
        w @ [EmbedCall [JStr ''q''] SearchQuery,
             RerankCall ''q'' [JStr ''b1'', JStr ''b0'', JStr ''a2''] 2])"
  by (simp add: Documents_retrieve_def search_row_def scenario_documents_def built_documents_def
      recording_client_def mock_knn_def five_passages_def list_getitem_def array_getitem_def nat_2)

section \<open>The claims\<close>

text \<open>
  C1. When the query is embedded, the search returns the ordered candidate positions
  \<open>doc_ids\<close> (all of them positions of the store) and the rerank returns the candidate
  indices \<open>rerank_results\<close> (indices into \<open>doc_ids\<close>), \<^verbatim>\<open>retrieve\<close> returns, for each rerank
  result in the rerank's order, the title and text of the passage stored at the position
  that \<open>doc_ids\<close> holds at that index. The witness is the scenario of the claim: five
  passages, \<^verbatim>\<open>retrieve_top_k = 3\<close>, \<^verbatim>\<open>rerank_top_k = 2\<close> and a rerank that answers in reverse
  input order; the search returns the positions 4, 3, 2 and the result is the two
  passages at positions 2 and 3.
\<close>

theorem retrieve_follows_rerank_order:
  assumes embedded: "co_embed (co self) [JStr query] SearchQuery w = (Inr query_emb, w1)"
    and built: "index self = Some ix"
    and searched: "knn_query ix query_emb (retrieve_top_k self) = Inr (doc_ids # other_rows)"
    and positions: "\<forall>i \<in> set doc_ids. i < length (docs self)"
    and reranked: "co_rerank (co self) query (map (\<lambda>i. text' (docs self ! i)) doc_ids)
                     (rerank_top_k self) w1 = (Inr rerank_results, w2)"
    and indices: "\<forall>r \<in> set rerank_results. 0 \<le> r \<and> r < int (length doc_ids)"
  shows "Documents_retrieve knn_query self query w
           = (Inr (map (\<lambda>r. \<lparr>title = title (docs self ! (doc_ids ! nat r)),
                              text' = text' (docs self ! (doc_ids ! nat r))\<rparr>) rerank_results),
              self, w2)"
proof -
  have "\<forall>i \<in> set (map (\<lambda>r. doc_ids ! nat r) rerank_results). i < length (docs self)"
    using positions indices by (auto simp: nat_less_iff)
  from passages_of_valid_ids [OF this]
  show ?thesis
    unfolding Documents_retrieve_def
    by (simp add: embedded search_row_first [where knn_query = knn_query, OF built searched]
        texts_of_valid_ids [OF positions] reranked positions_of_valid_indices [OF indices]
        comp_def)
qed

theorem retrieve_follows_rerank_order_witness:
  "search_row mock_knn scenario_documents [''q''] = Inr [4, 3, 2]
   \<and> Documents_retrieve mock_knn scenario_documents ''q'' []
     = (Inr [\<lparr>title = JStr ''A'', text' = JStr ''a2''\<rparr>, \<lparr>title = JStr ''B'', text' = JStr ''b0''\<rparr>],
        scenario_documents,
        [EmbedCall [JStr ''q''] SearchQuery,
         RerankCall ''q'' [JStr ''b1'', JStr ''b0'', JStr ''a2''] 2])"
proof -
  have positions: "\<forall>i \<in> set [4, 3, 2 :: nat]. i < length (docs scenario_documents)"
    by (simp add: scenario_facts five_passages_def)
  have reranked: "co_rerank (co scenario_documents) ''q''
          (map (\<lambda>i. text' (docs scenario_documents ! i)) [4, 3, 2])
          (rerank_top_k scenario_documents) [EmbedCall [JStr ''q''] SearchQuery]
        = (Inr [2, 1], [EmbedCall [JStr ''q''] SearchQuery,
                        RerankCall ''q'' [JStr ''b1'', JStr ''b0'', JStr ''a2''] 2])"
    by (simp add: scenario_facts five_passages_def)
       (simp add: scenario_documents_def built_documents_def recording_client_def nat_2)
  have indices: "\<forall>r \<in> set [2, 1 :: int]. 0 \<le> r \<and> r < int (length [4, 3, 2 :: nat])"
    by simp
  have row: "search_row mock_knn scenario_documents [''q''] = Inr [4, 3, 2]"
    by (simp add: search_row_first [where knn_query = mock_knn, OF scenario_facts(2) scenario_search])
  from retrieve_follows_rerank_order
         [where knn_query = mock_knn and self = scenario_documents,
          OF scenario_facts(1) scenario_facts(2) scenario_search positions reranked indices]
  have "Documents_retrieve mock_knn scenario_documents ''q'' []
     = (Inr (map (\<lambda>r. \<lparr>title = title (docs scenario_documents ! ([4, 3, 2] ! nat r)),
                         text' = text' (docs scenario_documents ! ([4, 3, 2] ! nat r))\<rparr>) [2, 1]),
        scenario_documents,
        [EmbedCall [JStr ''q''] SearchQuery,
         RerankCall ''q'' [JStr ''b1'', JStr ''b0'', JStr ''a2''] 2])"
    by (simp add: scenario_facts)
  then show ?thesis using row by (simp add: scenario_facts five_passages_def nat_2)
qed

text \<open>
  C2, as stated, fails. The object the constructor builds from five passages keeps
  \<^verbatim>\<open>retrieve_top_k = 500\<close>, and \<^verbatim>\<open>retrieve\<close> passes it on as it is: a search that refuses
  every \<open>k\<close> above its five stored vectors raises, where the unguarded search answers.
\<close>

theorem retrieve_unclamped_counterexample:
  "retrieve_top_k built_documents = 500
   \<and> map_option get_current_count (index built_documents) = Some 5
   \<and> fst (Documents_retrieve mock_knn built_documents ''q'' []) = Inr five_passages
   \<and> fst (Documents_retrieve (guard_k mock_knn) built_documents ''q'' []) = Inl RuntimeError"
  by (simp add: Documents_retrieve_def search_row_def built_documents_def
      recording_client_def mock_knn_def guard_k_def get_current_count_def five_passages_def
      list_getitem_def array_getitem_def)

text \<open>
  C2, amended. \<^verbatim>\<open>retrieve\<close> does not clamp: it consults the search at
  \<open>k = retrieve_top_k\<close> and at no other \<open>k\<close>, whatever the index holds. So a search that
  refuses every \<open>k\<close> above the stored count changes nothing when \<^verbatim>\<open>retrieve_top_k\<close> is at
  most the stored count, and is refused (once the query is embedded) when
  \<^verbatim>\<open>retrieve_top_k\<close> is larger.
\<close>

theorem retrieve_searches_with_retrieve_top_k:
  "Documents_retrieve knn_query self query w
     = Documents_retrieve
         (\<lambda>ix data k. if k = retrieve_top_k self then knn_query ix data k else Inl RuntimeError)
         self query w
   \<and> (\<forall>ix. index self = Some ix \<and> retrieve_top_k self \<le> int (get_current_count ix)
         \<longrightarrow> Documents_retrieve (guard_k knn_query) self query w
               = Documents_retrieve knn_query self query w)
   \<and> (\<forall>ix query_emb w1.
         index self = Some ix \<and> int (get_current_count ix) < retrieve_top_k self
         \<and> co_embed (co self) [JStr query] SearchQuery w = (Inr query_emb, w1)
         \<longrightarrow> Documents_retrieve (guard_k knn_query) self query w = (Inl RuntimeError, self, w1))"
proof (intro conjI allI impI)
  have "search_row knn_query self q
          = search_row (\<lambda>ix data k. if k = retrieve_top_k self then knn_query ix data k
                                      else Inl RuntimeError) self q" for q
    by (simp add: search_row_def split: option.splits)
  then show "Documents_retrieve knn_query self query w
     = Documents_retrieve
         (\<lambda>ix data k. if k = retrieve_top_k self then knn_query ix data k else Inl RuntimeError)
         self query w"
    by (rule retrieve_search_cong)
next
  fix ix
  assume "index self = Some ix \<and> retrieve_top_k self \<le> int (get_current_count ix)"
  then have "search_row (guard_k knn_query) self q = search_row knn_query self q" for q
    by (simp add: search_row_def guard_k_def)
  then show "Documents_retrieve (guard_k knn_query) self query w
               = Documents_retrieve knn_query self query w"
    by (rule retrieve_search_cong)
next
  fix ix query_emb w1
  assume a: "index self = Some ix \<and> int (get_current_count ix) < retrieve_top_k self
         \<and> co_embed (co self) [JStr query] SearchQuery w = (Inr query_emb, w1)"
  then have "search_row (guard_k knn_query) self query_emb = Inl RuntimeError"
    by (simp add: search_row_def guard_k_def)
  with a show "Documents_retrieve (guard_k knn_query) self query w = (Inl RuntimeError, self, w1)"
    by (simp add: Documents_retrieve_def)
qed

theorem retrieve_searches_with_retrieve_top_k_witness:
  "Documents_retrieve (guard_k mock_knn) scenario_documents ''q'' []
     = Documents_retrieve mock_knn scenario_documents ''q'' []
   \<and> Documents_retrieve (guard_k mock_knn) built_documents ''q'' []
     = (Inl RuntimeError, built_documents, [EmbedCall [JStr ''q''] SearchQuery])"
proof -
  let ?ix = "\<lparr>space = ''ip'', dim = 1024, max_elements = 5, ef_construction = 512, hnsw_M = 64,
              items = [(0 :: nat, ''a0''), (1, ''a1''), (2, ''a2''), (3, ''b0''), (4, ''b1'')]\<rparr>"
  have small: "index scenario_documents = Some ?ix
                 \<and> retrieve_top_k scenario_documents \<le> int (get_current_count ?ix)"
    by (simp add: scenario_facts get_current_count_def)
  have large: "index built_documents = Some ?ix
                 \<and> int (get_current_count ?ix) < retrieve_top_k built_documents
                 \<and> co_embed (co built_documents) [JStr ''q''] SearchQuery []
                     = (Inr [''q''], [EmbedCall [JStr ''q''] SearchQuery])"
    by (simp add: built_documents_def get_current_count_def recording_client_def)
  from retrieve_searches_with_retrieve_top_k
         [where self = scenario_documents and knn_query = mock_knn and query = "''q''" and w = "[]"]
       small
  have "Documents_retrieve (guard_k mock_knn) scenario_documents ''q'' []
          = Documents_retrieve mock_knn scenario_documents ''q'' []"
    by blast
  moreover
  from retrieve_searches_with_retrieve_top_k
         [where self = built_documents and knn_query = mock_knn and query = "''q''" and w = "[]"]
       large
  have "Documents_retrieve (guard_k mock_knn) built_documents ''q'' []
          = (Inl RuntimeError, built_documents, [EmbedCall [JStr ''q''] SearchQuery])"
    by blast
  ultimately show ?thesis by simp
qed

text \<open>
  C3. For every batch size above 0 and every passage sequence: when the backend answers
  every document-mode call of at most \<open>batch_size\<close> texts with one vector per text, in
  order (\<open>vec\<close> of each text), the embedding loop sends exactly the consecutive batches
  of the passages, one document-mode call per batch in order (the world after the loop is
  the world after these calls), every batch is non-empty and of at most \<open>batch_size\<close>
  passages, the batches concatenated are the passages, and the vectors appended to
  \<^verbatim>\<open>docs_embs\<close> are the passages' vectors in the passages' order. \<^verbatim>\<open>embed\<close> itself is the
  loop at batch size 90.
\<close>

theorem embed_one_vector_per_passage:
  assumes size: "0 < batch_size"
    and contract: "\<forall>texts u. texts \<noteq> [] \<and> length texts \<le> batch_size \<longrightarrow>
                      fst (co_embed (co self) texts SearchDocument u) = Inr (map vec texts)"
  defines "sent \<equiv> batches batch_size (docs self)"
  defines "after \<equiv> foldl (\<lambda>u b. snd (co_embed (co self) (map text' b) SearchDocument u))"
  shows "embed_batches (co self) (docs self) (length (docs self)) batch_size (docs_embs self) w
           = (Inr (docs_embs self @ map (\<lambda>p. vec (text' p)) (docs self)), after w sent)
       \<and> concat sent = docs self
       \<and> (\<forall>b \<in> set sent. b \<noteq> [] \<and> length b \<le> batch_size)
       \<and> (batch_size = 90 \<longrightarrow>
            Documents_embed self w
              = (Inr (self\<lparr>docs_len := Some (length (docs self)),
                           docs_embs := docs_embs self @ map (\<lambda>p. vec (text' p)) (docs self)\<rparr>),
                 after w sent))"
proof -
  have run: "embed_batches (co self) (docs self) (length (docs self)) batch_size (docs_embs self) w
           = (Inr (docs_embs self @ map (\<lambda>p. vec (text' p)) (docs self)), after w sent)"
    using size embed_loop_batches
                 [where i = 0 and embs = "docs_embs self" and w = w, OF size contract refl]
    by (simp add: embed_batches_def sent_def after_def)
  moreover have "concat sent = docs self"
    using size by (simp add: sent_def concat_batches)
  moreover have "\<forall>b \<in> set sent. b \<noteq> [] \<and> length b \<le> batch_size"
    using size batches_bounded unfolding sent_def by blast
  moreover have "Documents_embed self w
              = (Inr (self\<lparr>docs_len := Some (length (docs self)),
                           docs_embs := docs_embs self @ map (\<lambda>p. vec (text' p)) (docs self)\<rparr>),
                 after w sent)" if "batch_size = 90"
    using run that by (simp add: Documents_embed_def)
  ultimately show ?thesis by blast
qed

theorem embed_one_vector_per_passage_witness:
  "embed_batches recording_client five_passages 5 2 [] []
     = (Inr [''a0'', ''a1'', ''a2'', ''b0'', ''b1''],
        [EmbedCall [JStr ''a0'', JStr ''a1''] SearchDocument,
         EmbedCall [JStr ''a2'', JStr ''b0''] SearchDocument,
         EmbedCall [JStr ''b1''] SearchDocument])
   \<and> Documents_embed ((new_documents None recording_client)\<lparr>docs := five_passages\<rparr>) []
     = (Inr ((new_documents None recording_client)
               \<lparr>docs := five_passages, docs_len := Some 5,
                 docs_embs := [''a0'', ''a1'', ''a2'', ''b0'', ''b1'']\<rparr>),
        [EmbedCall [JStr ''a0'', JStr ''a1'', JStr ''a2'', JStr ''b0'', JStr ''b1''] SearchDocument])"
proof -
  let ?self = "(new_documents None recording_client)\<lparr>docs := five_passages\<rparr>"
  have contract: "\<forall>texts u. texts \<noteq> [] \<and> length texts \<le> n \<longrightarrow>
          fst (co_embed (co ?self) texts SearchDocument u) = Inr (map mock_vector texts)" for n
    by (simp add: new_documents_def recording_client_def)
  have b2: "batches 2 five_passages
     = [[\<lparr>title = JStr ''A'', text' = JStr ''a0''\<rparr>, \<lparr>title = JStr ''A'', text' = JStr ''a1''\<rparr>],
        [\<lparr>title = JStr ''A'', text' = JStr ''a2''\<rparr>, \<lparr>title = JStr ''B'', text' = JStr ''b0''\<rparr>],
        [\<lparr>title = JStr ''B'', text' = JStr ''b1''\<rparr>]]"
    by (simp add: five_passages_def batches_step batches_Nil)
  have b90: "batches 90 five_passages = [five_passages]"
    by (simp add: five_passages_def batches_step batches_Nil)
  have two: "(0::nat) < 2" and ninety: "(0::nat) < 90" by simp_all
  have self: "docs ?self = five_passages" "docs_embs ?self = []" "co ?self = recording_client"
    by (simp_all add: new_documents_def)
  have len: "length five_passages = 5" by (simp add: five_passages_def)
  have log: "foldl (\<lambda>u b. snd (co_embed recording_client (map text' b) SearchDocument u)) [] bs
               = map (\<lambda>b. EmbedCall (map text' b) SearchDocument) bs" for bs :: "passage list list"
    by (induction bs rule: rev_induct) (simp_all add: recording_client_def)
  from embed_one_vector_per_passage [where self = ?self and w = "[]", OF two contract]
  have "embed_batches recording_client five_passages 5 2 [] []
     = (Inr (map (\<lambda>p. mock_vector (text' p)) five_passages),
        map (\<lambda>b. EmbedCall (map text' b) SearchDocument) (batches 2 five_passages))"
    unfolding self len log by simp
  moreover
  from embed_one_vector_per_passage [where self = ?self and w = "[]", OF ninety contract]
  have "Documents_embed ?self []
     = (Inr (?self\<lparr>docs_len := Some 5,
                   docs_embs := map (\<lambda>p. mock_vector (text' p)) five_passages\<rparr>),
        map (\<lambda>b. EmbedCall (map text' b) SearchDocument) (batches 90 five_passages))"
    unfolding self len log by simp
  ultimately show ?thesis
    unfolding b2 b90 by (simp add: five_passages_def new_documents_def)
qed

text \<open>
  C4. For a well-formed collection and a bound \<open>max_documents\<close> (a number of documents,
  so not negative), \<^verbatim>\<open>load\<close> appends to the store, document by document in the order
  of the collection and for the first \<open>max_documents\<close> documents only, one passage per text
  section, each with the title of its document. The number of passages added is the total
  number of text sections of the included documents, and section \<open>s\<close> of included document
  \<open>d\<close> sits at the position given by the number of sections before it: the positions are
  the indices of a list, \<open>0\<close> to the count minus one, without gap or repeat. The example of
  the claim (titles A and B, three and two sections, five passages) is the witness.
\<close>

theorem load_one_passage_per_section:
  assumes src: "fs ''datasets/xray_articles.json'' = Inr (JArr articles)"
    and wf: "\<forall>a \<in> set articles. well_formed_entry a"
    and bound: "0 \<le> max_documents"
  defines "included \<equiv> take (nat max_documents) articles"
  defines "store \<equiv> concat (map entry_passages included)"
  shows "Documents_load fs self max_documents = Inr (self\<lparr>docs := docs self @ store\<rparr>)
       \<and> length store = sum_list (map (\<lambda>a. length (entry_sections a)) included)
       \<and> (\<forall>d < length included. \<forall>s < length (entry_sections (included ! d)).
            store ! (sum_list (map (\<lambda>a. length (entry_sections a)) (take d included)) + s)
              = \<lparr>title = entry_title (included ! d), text' = entry_sections (included ! d) ! s\<rparr>)"
proof (intro conjI allI impI)
  show "Documents_load fs self max_documents = Inr (self\<lparr>docs := docs self @ store\<rparr>)"
    using src wf bound
    by (simp add: Documents_load_def load_loop_well_formed store_def included_def)
  show "length store = sum_list (map (\<lambda>a. length (entry_sections a)) included)"
    by (simp add: store_def length_concat entry_passages_def comp_def)
next
  fix d s
  assume d: "d < length included" and s: "s < length (entry_sections (included ! d))"
  have len: "map length (map entry_passages xs) = map (\<lambda>a. length (entry_sections a)) xs" for xs
    by (simp add: entry_passages_def comp_def)
  have "concat (map entry_passages included)
          ! (sum_list (map length (take d (map entry_passages included))) + s)
        = map entry_passages included ! d ! s"
    using d s by (intro concat_nth_offset) (simp_all add: entry_passages_def)
  then show "store ! (sum_list (map (\<lambda>a. length (entry_sections a)) (take d included)) + s)
              = \<lparr>title = entry_title (included ! d), text' = entry_sections (included ! d) ! s\<rparr>"
    using d s by (simp add: store_def take_map len del: map_map) (simp add: entry_passages_def)
qed

theorem load_one_passage_per_section_witness:
  "Documents_load example_fs (new_documents None recording_client) 500
     = Inr ((new_documents None recording_client)
          \<lparr>docs := [\<lparr>title = JStr ''A'', text' = JStr ''a0''\<rparr>,
                    \<lparr>title = JStr ''A'', text' = JStr ''a1''\<rparr>,
                    \<lparr>title = JStr ''A'', text' = JStr ''a2''\<rparr>,
                    \<lparr>title = JStr ''B'', text' = JStr ''b0''\<rparr>,
                    \<lparr>title = JStr ''B'', text' = JStr ''b1''\<rparr>]\<rparr>)"
proof -
  have src: "example_fs ''datasets/xray_articles.json'' = Inr (JArr two_documents)"
    by (simp add: example_fs_def)
  have wf: "\<forall>a \<in> set two_documents. well_formed_entry a"
    by (simp add: two_documents_def well_formed_entry_def)
  have bound: "(0::int) \<le> 500" by simp
  from load_one_passage_per_section
         [where fs = example_fs and self = "new_documents None recording_client", OF src wf bound]
  show ?thesis
    by (simp add: two_documents_def entry_passages_def entry_title_def entry_sections_def
        new_documents_def)
qed

text \<open>
  C5. Whenever \<^verbatim>\<open>retrieve\<close> returns a result, the query was embedded, the search returned
  candidate positions \<open>doc_ids\<close> that are all positions of the store, the rerank returned
  \<open>rerank_results\<close>, every passage of the result is the passage stored at one of the
  candidate positions, and the result has one passage per rerank result. When the search
  and the rerank keep their contracts (at most \<^verbatim>\<open>retrieve_top_k\<close> distinct positions; at
  most \<^verbatim>\<open>rerank_top_k\<close> distinct candidate indices), the length of the result is at most
  the minimum of \<^verbatim>\<open>rerank_top_k\<close>, \<^verbatim>\<open>retrieve_top_k\<close> and the size of the store.
\<close>

theorem retrieve_result_within_candidates:
  assumes "Documents_retrieve knn_query self query w = (Inr result, self', w')"
  shows "\<exists>query_emb w1 doc_ids rerank_results.
           co_embed (co self) [JStr query] SearchQuery w = (Inr query_emb, w1)
         \<and> search_row knn_query self query_emb = Inr doc_ids
         \<and> co_rerank (co self) query (map (\<lambda>i. text' (docs self ! i)) doc_ids)
              (rerank_top_k self) w1 = (Inr rerank_results, w')
         \<and> (\<forall>i \<in> set doc_ids. i < length (docs self))
         \<and> set result \<subseteq> (\<lambda>i. docs self ! i) ` set doc_ids
         \<and> length result = length rerank_results
         \<and> (distinct doc_ids \<and> int (length doc_ids) \<le> retrieve_top_k self
              \<and> distinct rerank_results \<and> (\<forall>r \<in> set rerank_results. 0 \<le> r)
              \<and> int (length rerank_results) \<le> rerank_top_k self
            \<longrightarrow> int (length result)
                  \<le> min (rerank_top_k self) (min (retrieve_top_k self) (int (length (docs self)))))"
proof -
  from retrieve_returns [OF assms]
  obtain query_emb w1 doc_ids texts rerank_results ids where
    emb: "co_embed (co self) [JStr query] SearchQuery w = (Inr query_emb, w1)"
    and row: "search_row knn_query self query_emb = Inr doc_ids"
    and texts: "for_append (\<lambda>doc_id. case list_getitem (docs self) doc_id of
                     Inl e \<Rightarrow> Inl e | Inr d \<Rightarrow> Inr (text' d)) doc_ids = Inr texts"
    and rr: "co_rerank (co self) query texts (rerank_top_k self) w1 = (Inr rerank_results, w')"
    and ids: "for_append (array_getitem doc_ids) rerank_results = Inr ids"
    and res: "for_append (\<lambda>doc_id. case list_getitem (docs self) doc_id of
                     Inl e \<Rightarrow> Inl e
                   | Inr d \<Rightarrow> Inr \<lparr>title = title d, text' = text' d\<rparr>) ids = Inr result"
    by blast
  from texts_resolved [OF texts]
  have valid: "\<forall>i \<in> set doc_ids. i < length (docs self)"
    and texts_eq: "texts = map (\<lambda>i. text' (docs self ! i)) doc_ids" by simp_all
  from positions_resolved [OF ids]
  have len_ids: "length ids = length rerank_results" and sub: "set ids \<subseteq> set doc_ids"
    and upper: "\<forall>r \<in> set rerank_results. r < int (length doc_ids)" by simp_all
  from passages_resolved [OF res] have result: "result = map (\<lambda>i. docs self ! i) ids" .
  have subset: "set result \<subseteq> (\<lambda>i. docs self ! i) ` set doc_ids"
    using sub by (auto simp: result)
  have len: "length result = length rerank_results"
    by (simp add: result len_ids)
  have bound: "int (length result)
          \<le> min (rerank_top_k self) (min (retrieve_top_k self) (int (length (docs self))))"
    if c: "distinct doc_ids" "int (length doc_ids) \<le> retrieve_top_k self"
      "distinct rerank_results" "\<forall>r \<in> set rerank_results. 0 \<le> r"
      "int (length rerank_results) \<le> rerank_top_k self"
  proof -
    from c(1) valid have "length doc_ids \<le> length (docs self)"
      by (rule distinct_bounded_nat)
    moreover from c(3) c(4) upper have "length rerank_results \<le> length doc_ids"
      by (intro distinct_bounded_int) auto
    ultimately show ?thesis using c(2) c(5) len by simp
  qed
  from emb row rr valid subset len bound show ?thesis
    unfolding texts_eq by blast
qed

theorem retrieve_result_within_candidates_witness:
  "search_row mock_knn scenario_documents [''q''] = Inr [4, 3, 2]
   \<and> set [\<lparr>title = JStr ''A'', text' = JStr ''a2''\<rparr>, \<lparr>title = JStr ''B'', text' = JStr ''b0''\<rparr>]
        \<subseteq> (\<lambda>i. docs scenario_documents ! i) ` set [4, 3, 2]
   \<and> int (length [\<lparr>title = JStr ''A'', text' = JStr ''a2''\<rparr>,
                    \<lparr>title = JStr ''B'', text' = JStr ''b0''\<rparr>])
        \<le> min (rerank_top_k scenario_documents)
              (min (retrieve_top_k scenario_documents) (int (length (docs scenario_documents))))"
proof -
  let ?result = "[\<lparr>title = JStr ''A'', text' = JStr ''a2''\<rparr>, \<lparr>title = JStr ''B'', text' = JStr ''b0''\<rparr>]"
  from retrieve_result_within_candidates [OF scenario_retrieve [of "[]"]]
  obtain query_emb w1 doc_ids rerank_results where
    emb: "co_embed (co scenario_documents) [JStr ''q''] SearchQuery [] = (Inr query_emb, w1)"
    and row: "search_row mock_knn scenario_documents query_emb = Inr doc_ids"
    and rr: "co_rerank (co scenario_documents) ''q''
               (map (\<lambda>i. text' (docs scenario_documents ! i)) doc_ids)
               (rerank_top_k scenario_documents) w1 = (Inr rerank_results, 
                  [] @ [EmbedCall [JStr ''q''] SearchQuery,
             RerankCall ''q'' [JStr ''b1'', JStr ''b0'', JStr ''a2''] 2])"
    and subset: "set ?result \<subseteq> (\<lambda>i. docs scenario_documents ! i) ` set doc_ids"
    and bound: "distinct doc_ids \<and> int (length doc_ids) \<le> retrieve_top_k scenario_documents
              \<and> distinct rerank_results \<and> (\<forall>r \<in> set rerank_results. 0 \<le> r)
              \<and> int (length rerank_results) \<le> rerank_top_k scenario_documents
            \<longrightarrow> int (length ?result)
                  \<le> min (rerank_top_k scenario_documents)
                        (min (retrieve_top_k scenario_documents)
                           (int (length (docs scenario_documents))))"
    by blast
  from emb have qe: "query_emb = [''q'']" and w1: "w1 = [EmbedCall [JStr ''q''] SearchQuery]"
    by (simp_all add: scenario_facts)
  have row': "search_row mock_knn scenario_documents [''q''] = Inr [4, 3, 2]"
    by (simp add: search_row_first [where knn_query = mock_knn, OF scenario_facts(2) scenario_search])
  with row qe have ids: "doc_ids = [4, 3, 2]" by simp
  from rr have rs: "rerank_results = [2, 1]"
    unfolding ids w1
    by (simp add: scenario_documents_def built_documents_def recording_client_def nat_2)
  from bound have "int (length ?result)
                  \<le> min (rerank_top_k scenario_documents)
                        (min (retrieve_top_k scenario_documents)
                           (int (length (docs scenario_documents))))"
    unfolding ids rs by (simp add: scenario_facts)
  with row' subset ids show ?thesis by simp
qed

text \<open>
  C6. With a backend whose answers do not depend on the state of the outside world
  (deterministic embedding and rerank), a call of \<^verbatim>\<open>retrieve\<close> leaves the object as it
  was, and a second call with the same query, on the object and in the world the first
  call left, returns the same result.
\<close>

theorem retrieve_twice_same_result:
  assumes det_embed: "\<forall>texts mode u v.
            fst (co_embed (co self) texts mode u) = fst (co_embed (co self) texts mode v)"
    and det_rerank: "\<forall>q ds n u v.
            fst (co_rerank (co self) q ds n u) = fst (co_rerank (co self) q ds n v)"
    and first: "Documents_retrieve knn_query self query w = (result, self', w')"
  shows "self' = self
       \<and> fst (Documents_retrieve knn_query self' query w') = result"
proof -
  from first retrieve_keeps_self [of knn_query self query w] have same: "self' = self" by simp
  from retrieve_result_world [OF det_embed det_rerank, of knn_query query w' w] first
  have "fst (Documents_retrieve knn_query self query w') = result" by simp
  with same show ?thesis by simp
qed

theorem retrieve_twice_same_result_witness:
  "Documents_retrieve mock_knn scenario_documents ''q''
      [EmbedCall [JStr ''q''] SearchQuery, RerankCall ''q'' [JStr ''b1'', JStr ''b0'', JStr ''a2''] 2]
   = (Inr [\<lparr>title = JStr ''A'', text' = JStr ''a2''\<rparr>, \<lparr>title = JStr ''B'', text' = JStr ''b0''\<rparr>],
      scenario_documents,
      [EmbedCall [JStr ''q''] SearchQuery, RerankCall ''q'' [JStr ''b1'', JStr ''b0'', JStr ''a2''] 2,
       EmbedCall [JStr ''q''] SearchQuery, RerankCall ''q'' [JStr ''b1'', JStr ''b0'', JStr ''a2''] 2])
   \<and> fst (Documents_retrieve mock_knn scenario_documents ''q''
      [EmbedCall [JStr ''q''] SearchQuery, RerankCall ''q'' [JStr ''b1'', JStr ''b0'', JStr ''a2''] 2])
     = fst (Documents_retrieve mock_knn scenario_documents ''q'' [])"
proof -
  have det_embed: "\<forall>texts mode u v. fst (co_embed (co scenario_documents) texts mode u)
                     = fst (co_embed (co scenario_documents) texts mode v)"
    by (simp add: scenario_documents_def built_documents_def recording_client_def)
  have det_rerank: "\<forall>q ds n u v. fst (co_rerank (co scenario_documents) q ds n u)
                     = fst (co_rerank (co scenario_documents) q ds n v)"
    by (simp add: scenario_documents_def built_documents_def recording_client_def)
  have first: "Documents_retrieve mock_knn scenario_documents ''q'' []
     = (Inr [\<lparr>title = JStr ''A'', text' = JStr ''a2''\<rparr>, \<lparr>title = JStr ''B'', text' = JStr ''b0''\<rparr>],
        scenario_documents,
        [EmbedCall [JStr ''q''] SearchQuery, RerankCall ''q'' [JStr ''b1'', JStr ''b0'', JStr ''a2''] 2])"
    using scenario_retrieve [of "[]"] by simp
  from retrieve_twice_same_result [OF det_embed det_rerank first]
  show ?thesis
    using scenario_retrieve
      [of "[EmbedCall [JStr ''q''] SearchQuery, RerankCall ''q'' [JStr ''b1'', JStr ''b0'', JStr ''a2''] 2]"]
      first
    by simp
qed

text \<open>
  C7. When the embedding call of \<^verbatim>\<open>retrieve\<close> fails, and when the rerank call fails after
  the query was embedded and the candidates were resolved, \<^verbatim>\<open>retrieve\<close> returns that very
  error and no passages (there is no fallback ranking), and the object, with its store
  and its index, is the one the call started with. Whatever the outcome, \<^verbatim>\<open>retrieve\<close>
  leaves the object unchanged.
\<close>

theorem retrieve_backend_failure_propagates:
  "(co_embed (co self) [JStr query] SearchQuery w = (Inl e, w1)
      \<longrightarrow> Documents_retrieve knn_query self query w = (Inl e, self, w1))
   \<and> (co_embed (co self) [JStr query] SearchQuery w = (Inr query_emb, w1)
        \<and> search_row knn_query self query_emb = Inr doc_ids
        \<and> (\<forall>i \<in> set doc_ids. i < length (docs self))
        \<and> co_rerank (co self) query (map (\<lambda>i. text' (docs self ! i)) doc_ids)
             (rerank_top_k self) w1 = (Inl e, w2)
      \<longrightarrow> Documents_retrieve knn_query self query w = (Inl e, self, w2))
   \<and> fst (snd (Documents_retrieve knn_query self query w)) = self"
proof (intro conjI impI)
  assume "co_embed (co self) [JStr query] SearchQuery w = (Inl e, w1)"
  then show "Documents_retrieve knn_query self query w = (Inl e, self, w1)"
    by (simp add: Documents_retrieve_def)
next
  assume a: "co_embed (co self) [JStr query] SearchQuery w = (Inr query_emb, w1)
        \<and> search_row knn_query self query_emb = Inr doc_ids
        \<and> (\<forall>i \<in> set doc_ids. i < length (docs self))
        \<and> co_rerank (co self) query (map (\<lambda>i. text' (docs self ! i)) doc_ids)
             (rerank_top_k self) w1 = (Inl e, w2)"
  then have valid: "\<forall>i \<in> set doc_ids. i < length (docs self)" by blast
  from a show "Documents_retrieve knn_query self query w = (Inl e, self, w2)"
    by (simp add: Documents_retrieve_def texts_of_valid_ids [OF valid])
next
  show "fst (snd (Documents_retrieve knn_query self query w)) = self"
    by (rule retrieve_keeps_self)
qed

theorem retrieve_backend_failure_propagates_witness:
  "Documents_retrieve mock_knn (built_documents\<lparr>co := embed_down_client\<rparr>) ''q'' []
     = (Inl (BackendError ''embed''), built_documents\<lparr>co := embed_down_client\<rparr>,
        [EmbedCall [JStr ''q''] SearchQuery])
   \<and> Documents_retrieve mock_knn (scenario_documents\<lparr>co := rerank_down_client\<rparr>) ''q'' []
     = (Inl (BackendError ''rerank''), scenario_documents\<lparr>co := rerank_down_client\<rparr>,
        [EmbedCall [JStr ''q''] SearchQuery,
         RerankCall ''q'' [JStr ''b1'', JStr ''b0'', JStr ''a2''] 2])"
proof -
  let ?down = "built_documents\<lparr>co := embed_down_client\<rparr>"
  let ?half = "scenario_documents\<lparr>co := rerank_down_client\<rparr>"
  have e1: "co_embed (co ?down) [JStr ''q''] SearchQuery []
              = (Inl (BackendError ''embed''), [EmbedCall [JStr ''q''] SearchQuery])"
    by (simp add: embed_down_client_def)
  have e2: "co_embed (co ?half) [JStr ''q''] SearchQuery []
            = (Inr [''q''], [EmbedCall [JStr ''q''] SearchQuery])
        \<and> search_row mock_knn ?half [''q''] = Inr [4, 3, 2]
        \<and> (\<forall>i \<in> set [4, 3, 2 :: nat]. i < length (docs ?half))
        \<and> co_rerank (co ?half) ''q'' (map (\<lambda>i. text' (docs ?half ! i)) [4, 3, 2])
             (rerank_top_k ?half) [EmbedCall [JStr ''q''] SearchQuery]
            = (Inl (BackendError ''rerank''),
               [EmbedCall [JStr ''q''] SearchQuery,
                RerankCall ''q'' [JStr ''b1'', JStr ''b0'', JStr ''a2''] 2])"
    by (simp add: rerank_down_client_def recording_client_def scenario_documents_def
        built_documents_def search_row_def mock_knn_def five_passages_def)
  from retrieve_backend_failure_propagates
         [where self = ?down and knn_query = mock_knn and query = "''q''" and w = "[]"] e1
  have "Documents_retrieve mock_knn ?down ''q'' []
     = (Inl (BackendError ''embed''), ?down, [EmbedCall [JStr ''q''] SearchQuery])"
    by blast
  moreover
  from retrieve_backend_failure_propagates
         [where self = ?half and knn_query = mock_knn and query = "''q''" and w = "[]"] e2
  have "Documents_retrieve mock_knn ?half ''q'' []
     = (Inl (BackendError ''rerank''), ?half,
        [EmbedCall [JStr ''q''] SearchQuery,
         RerankCall ''q'' [JStr ''b1'', JStr ''b0'', JStr ''a2''] 2])"
    by blast
  ultimately show ?thesis by simp
qed

text \<open>
  C8, as stated, fails: a collection whose entry has no title, with an empty list of text
  sections, is loaded without any error. The title is only read inside the loop over the
  text sections, so an entry without sections never has its title looked up.
\<close>

theorem load_untitled_entry_counterexample:
  "field (JObj [(''FullText'', JArr [])]) ''Title'' = None
   \<and> untitled_fs ''datasets/xray_articles.json'' = Inr (JArr [JObj [(''FullText'', JArr [])]])
   \<and> Documents_load untitled_fs (new_documents None recording_client) 500
       = Inr (new_documents None recording_client)"
  by (simp add: untitled_fs_def Documents_load_def load_article_def new_documents_def)

text \<open>
  C8, amended. \<^verbatim>\<open>load\<close> validates nothing by itself: it fails exactly when one of the
  entries it reads (all of them for a negative bound, the first \<open>max_documents\<close> otherwise)
  cannot be processed, that is, has no \<^verbatim>\<open>"FullText"\<close>, has a \<^verbatim>\<open>"FullText"\<close> that cannot be
  iterated, or has no \<^verbatim>\<open>"Title"\<close> while its \<^verbatim>\<open>"FullText"\<close> yields at least one text. The
  exception is Python's own \<^verbatim>\<open>KeyError\<close> (for \<^verbatim>\<open>"FullText"\<close> or \<^verbatim>\<open>"Title"\<close>) or
  \<^verbatim>\<open>TypeError\<close>, and it is the one raised at the first such entry: \<^verbatim>\<open>load\<close> stops there,
  nothing is caught and nothing is recovered. An entry without a title and without text
  sections, and any entry past the bound, is not looked at.
\<close>

theorem load_fails_iff_unreadable_entry:
  assumes "fs ''datasets/xray_articles.json'' = Inr (JArr articles)"
  shows "((\<exists>e. Documents_load fs self max_documents = Inl e) \<longleftrightarrow>
            (\<exists>i < length articles. (max_documents < 0 \<or> int i < max_documents)
                 \<and> unreadable_entry (articles ! i)))
         \<and> (\<forall>e. Documents_load fs self max_documents = Inl e \<longrightarrow>
               e = KeyError ''FullText'' \<or> e = KeyError ''Title'' \<or> e = TypeError)
         \<and> (\<forall>i < length articles.
               (max_documents < 0 \<or> int i < max_documents)
               \<and> unreadable_entry (articles ! i)
               \<and> (\<forall>j < i. \<not> unreadable_entry (articles ! j))
               \<longrightarrow> Documents_load fs self max_documents = Inl (entry_error (articles ! i)))"
proof -
  have eq: "Documents_load fs self max_documents =
        (case load_loop articles max_documents (docs self) of
           Inl e \<Rightarrow> Inl e | Inr ds \<Rightarrow> Inr (self\<lparr>docs := ds\<rparr>))"
    using assms by (simp add: Documents_load_def)
  have "(\<exists>e. Documents_load fs self max_documents = Inl e)
          \<longleftrightarrow> (\<exists>e. load_loop articles max_documents (docs self) = Inl e)"
    by (simp add: eq split: sum.splits)
  then have fails: "(\<exists>e. Documents_load fs self max_documents = Inl e) \<longleftrightarrow>
            (\<exists>i < length articles. (max_documents < 0 \<or> int i < max_documents)
                 \<and> unreadable_entry (articles ! i))"
    by (simp add: load_loop_fails_iff)
  have kind: "e = KeyError ''FullText'' \<or> e = KeyError ''Title'' \<or> e = TypeError"
    if "Documents_load fs self max_documents = Inl e" for e
  proof -
    from that have "load_loop articles max_documents (docs self) = Inl e"
      by (simp add: eq split: sum.splits)
    from load_loop_error_source [OF this] load_article_error_kind show ?thesis by blast
  qed
  have first: "Documents_load fs self max_documents = Inl (entry_error (articles ! i))"
    if "i < length articles" "max_documents < 0 \<or> int i < max_documents"
      "unreadable_entry (articles ! i)" "\<forall>j < i. \<not> unreadable_entry (articles ! j)" for i
    using load_loop_first_unreadable [OF that, of "docs self"] by (simp add: eq)
  from fails kind first show ?thesis by blast
qed

theorem load_fails_iff_unreadable_entry_witness:
  "Documents_load truncated_fs (new_documents None recording_client) 500 = Inl (KeyError ''FullText'')
   \<and> Documents_load truncated_fs (new_documents None recording_client) 1
       = Inr ((new_documents None recording_client)\<lparr>docs := [\<lparr>title = JStr ''A'', text' = JStr ''a0''\<rparr>]\<rparr>)
   \<and> Documents_load two_bad_fs (new_documents None recording_client) 500 = Inl (KeyError ''FullText'')"
proof -
  let ?arts = "[JObj [(''Title'', JStr ''A''), (''FullText'', JArr [JStr ''a0''])],
                JObj [(''Title'', JStr ''B'')]]"
  let ?bad = "[JObj [(''Title'', JStr ''A'')], JObj [(''FullText'', JArr [JStr ''x''])]]"
  let ?self = "new_documents None recording_client :: (call list, string) documents"
  have src: "truncated_fs ''datasets/xray_articles.json'' = Inr (JArr ?arts)"
    by (simp add: truncated_fs_def)
  have src_bad: "two_bad_fs ''datasets/xray_articles.json'' = Inr (JArr ?bad)"
    by (simp add: two_bad_fs_def)
  note inst = load_fails_iff_unreadable_entry [where fs = truncated_fs and self = ?self, OF src]
  note inst_bad = load_fails_iff_unreadable_entry
                    [where fs = two_bad_fs and self = ?self and max_documents = 500, OF src_bad]
  have "(1::nat) < length ?arts \<and> ((500::int) < 0 \<or> int 1 < 500) \<and> unreadable_entry (?arts ! 1)
          \<and> (\<forall>j < 1. \<not> unreadable_entry (?arts ! j))"
    by (simp add: unreadable_entry_def)
  with inst [of 500] have "Documents_load truncated_fs ?self 500 = Inl (entry_error (?arts ! 1))"
    by blast
  then have one: "Documents_load truncated_fs ?self 500 = Inl (KeyError ''FullText'')" by simp
  have "\<not> (\<exists>i < length ?arts. ((1::int) < 0 \<or> int i < 1) \<and> unreadable_entry (?arts ! i))"
    by (simp add: unreadable_entry_def)
  with inst [of 1] have "\<not> (\<exists>e. Documents_load truncated_fs ?self 1 = Inl e)" by blast
  then have two: "Documents_load truncated_fs ?self 1
       = Inr (?self\<lparr>docs := [\<lparr>title = JStr ''A'', text' = JStr ''a0''\<rparr>]\<rparr>)"
    by (simp add: truncated_fs_def Documents_load_def load_article_def new_documents_def)
  have "(0::nat) < length ?bad \<and> ((500::int) < 0 \<or> int 0 < 500) \<and> unreadable_entry (?bad ! 0)
          \<and> (\<forall>j < 0. \<not> unreadable_entry (?bad ! j))"
    by (simp add: unreadable_entry_def)
  with inst_bad have "Documents_load two_bad_fs ?self 500 = Inl (entry_error (?bad ! 0))"
    by blast
  then have three: "Documents_load two_bad_fs ?self 500 = Inl (KeyError ''FullText'')" by simp
  from one two three show ?thesis by simp
qed

text \<open>
  C9, as stated, fails. After \<^verbatim>\<open>load\<close> with the bound 0 and \<^verbatim>\<open>embed\<close>, \<^verbatim>\<open>index\<close> hands the
  library an empty list of vectors; with a library that refuses an empty batch, as
  \<^verbatim>\<open>hnswlib\<close> does, the index build raises \<^verbatim>\<open>RuntimeError\<close> and builds no index.
\<close>

theorem index_of_empty_store_counterexample:
  "Documents_load example_fs (new_documents None recording_client) 0
     = Inr (new_documents None recording_client)
   \<and> Documents_embed (new_documents None recording_client) []
     = (Inr ((new_documents None recording_client)\<lparr>docs_len := Some 0\<rparr>), [])
   \<and> Documents_index strict_library ((new_documents None recording_client)\<lparr>docs_len := Some 0\<rparr>)
     = Inl RuntimeError"
proof (intro conjI)
  show "Documents_load example_fs (new_documents None recording_client) 0
     = Inr (new_documents None recording_client)"
    by (simp add: Documents_load_def example_fs_def two_documents_def new_documents_def)
  show "Documents_embed (new_documents None recording_client) []
     = (Inr ((new_documents None recording_client)\<lparr>docs_len := Some 0\<rparr>), [])"
    by (simp add: Documents_embed_def embed_batches_def embed_loop_done new_documents_def)
  show "Documents_index strict_library
          ((new_documents None recording_client)\<lparr>docs_len := Some 0\<rparr>)
     = Inl RuntimeError"
    by (simp add: Documents_index_def strict_library_def new_documents_def)
qed

text \<open>
  C9, amended. On an object whose store and vector list are empty, as the constructor
  makes them, and with a source file that holds a collection, \<^verbatim>\<open>load\<close> with the bound 0
  returns without error and leaves the store empty, and \<^verbatim>\<open>embed\<close> then returns without
  error, calls the backend not at all (the world is unchanged) and sets \<^verbatim>\<open>docs_len\<close> to
  0. \<^verbatim>\<open>index\<close> then asks the library for an index of capacity 0 and hands it an empty
  list of vectors and an empty list of labels, unguarded: its outcome is the library's.
  When the library accepts both calls, \<^verbatim>\<open>index\<close> returns with the index the library
  made; when the library raises, the exception propagates and no index is built.
\<close>

theorem load_zero_documents_then_index:
  assumes src: "fs ''datasets/xray_articles.json'' = Inr doc"
    and iterable: "py_iter doc = Inr articles"
    and fresh: "docs self = []" "docs_embs self = []"
  defines "bare \<equiv> self\<lparr>docs_len := Some 0\<rparr>"
  shows "Documents_load fs self 0 = Inr self
       \<and> Documents_embed self w = (Inr bare, w)
       \<and> (\<forall>e. lib_init_index lib (hnswlib_Index ''ip'' 1024) 0 512 64 = Inl e
              \<longrightarrow> Documents_index lib bare = Inl e)
       \<and> (\<forall>ix0 e. lib_init_index lib (hnswlib_Index ''ip'' 1024) 0 512 64 = Inr ix0
                  \<and> lib_add_items lib ix0 [] [] = Inl e
              \<longrightarrow> Documents_index lib bare = Inl e)
       \<and> (\<forall>ix0 ix. lib_init_index lib (hnswlib_Index ''ip'' 1024) 0 512 64 = Inr ix0
                  \<and> lib_add_items lib ix0 [] [] = Inr ix
              \<longrightarrow> Documents_index lib bare = Inr (bare\<lparr>index := Some ix\<rparr>))"
proof (intro conjI allI impI)
  have "load_loop articles 0 [] = Inr []" by (cases articles) simp_all
  then show "Documents_load fs self 0 = Inr self"
    using src iterable fresh by (simp add: Documents_load_def)
  show "Documents_embed self w = (Inr bare, w)"
    using fresh by (simp add: Documents_embed_def embed_batches_def embed_loop_done bare_def)
next
  fix e
  assume "lib_init_index lib (hnswlib_Index ''ip'' 1024) 0 512 64 = Inl e"
  then show "Documents_index lib bare = Inl e"
    by (simp add: Documents_index_def bare_def)
next
  fix ix0 e
  assume "lib_init_index lib (hnswlib_Index ''ip'' 1024) 0 512 64 = Inr ix0
            \<and> lib_add_items lib ix0 [] [] = Inl e"
  then show "Documents_index lib bare = Inl e"
    using fresh by (simp add: Documents_index_def bare_def)
next
  fix ix0 ix
  assume "lib_init_index lib (hnswlib_Index ''ip'' 1024) 0 512 64 = Inr ix0
            \<and> lib_add_items lib ix0 [] [] = Inr ix"
  then show "Documents_index lib bare = Inr (bare\<lparr>index := Some ix\<rparr>)"
    using fresh by (simp add: Documents_index_def bare_def)
qed

theorem load_zero_documents_then_index_witness:
  "Documents_load example_fs (new_documents None recording_client) 0
      = Inr (new_documents None recording_client)
   \<and> Documents_embed (new_documents None recording_client) []
      = (Inr ((new_documents None recording_client)\<lparr>docs_len := Some 0\<rparr>), [])
   \<and> Documents_index spec_library ((new_documents None recording_client)\<lparr>docs_len := Some 0\<rparr>)
      = Inr ((new_documents None recording_client)
               \<lparr>docs_len := Some 0,
                 index := Some \<lparr>space = ''ip'', dim = 1024, max_elements = 0,
                                ef_construction = 512, hnsw_M = 64, items = []\<rparr>\<rparr>)
   \<and> Documents_index strict_library ((new_documents None recording_client)\<lparr>docs_len := Some 0\<rparr>)
      = Inl RuntimeError"
proof -
  let ?self = "new_documents None recording_client"
  let ?ix0 = "\<lparr>space = ''ip'', dim = 1024, max_elements = 0, ef_construction = 512,
               hnsw_M = 64, items = ([] :: (nat \<times> string) list)\<rparr>"
  have src: "example_fs ''datasets/xray_articles.json'' = Inr (JArr two_documents)"
    by (simp add: example_fs_def)
  have iterable: "py_iter (JArr two_documents) = Inr two_documents" by simp
  have fresh: "docs ?self = []" "docs_embs ?self = []" by (simp_all add: new_documents_def)
  have accepted: "lib_init_index spec_library (hnswlib_Index ''ip'' 1024) 0 512 64 = Inr ?ix0
                    \<and> lib_add_items spec_library ?ix0 [] [] = Inr ?ix0"
    by (simp add: spec_library_def init_index_def add_items_def hnswlib_Index_def)
  have refused: "lib_init_index strict_library (hnswlib_Index ''ip'' 1024) 0 512 64 = Inr ?ix0
                    \<and> lib_add_items strict_library ?ix0 [] [] = Inl RuntimeError"
    by (simp add: strict_library_def init_index_def hnswlib_Index_def)
  note spec = load_zero_documents_then_index
         [where fs = example_fs and self = ?self and w = "[]" and lib = spec_library,
          OF src iterable fresh]
  note strict = load_zero_documents_then_index
         [where fs = example_fs and self = ?self and w = "[]" and lib = strict_library,
          OF src iterable fresh]
  from spec accepted
  have "Documents_index spec_library (?self\<lparr>docs_len := Some 0\<rparr>)
          = Inr (?self\<lparr>docs_len := Some 0, index := Some ?ix0\<rparr>)"
    by blast
  moreover from strict refused
  have "Documents_index strict_library (?self\<lparr>docs_len := Some 0\<rparr>) = Inl RuntimeError"
    by blast
  ultimately show ?thesis using spec by blast
qed

text \<open>
  C10. The constructor only stores its argument \<^verbatim>\<open>sources\<close>: constructed with any two
  values of it, the outcome is the same error, or the same object up to the attribute
  \<^verbatim>\<open>sources\<close>, in the same world; in particular the store is the same. \<^verbatim>\<open>load\<close> reads
  the fixed path \<^verbatim>\<open>datasets/xray_articles.json\<close> only: two file systems that agree on
  this path give the same outcome.
\<close>

theorem store_independent_of_sources:
  "Documents_init lib s2 c fs w
     = map_prod (map_sum id (\<lambda>d. d\<lparr>sources := s2\<rparr>)) id (Documents_init lib s1 c fs w)
   \<and> map_sum id docs (Documents_load fs (new_documents s2 c) n)
     = map_sum id docs (Documents_load fs (new_documents s1 c) n)
   \<and> map_sum id docs (fst (Documents_init lib s2 c fs w))
     = map_sum id docs (fst (Documents_init lib s1 c fs w))
   \<and> (fs' ''datasets/xray_articles.json'' = fs ''datasets/xray_articles.json''
        \<longrightarrow> Documents_load fs' self n = Documents_load fs self n)"
proof (intro conjI impI)
  show init: "Documents_init lib s2 c fs w
     = map_prod (map_sum id (\<lambda>d. d\<lparr>sources := s2\<rparr>)) id (Documents_init lib s1 c fs w)"
    unfolding Documents_init_def new_documents_sources [of s2 c s1] Documents_load_sources
    by (cases "Documents_load fs (new_documents s1 c) 500")
       (auto simp: Documents_embed_sources Documents_index_sources split: prod.splits sum.splits)
  show "map_sum id docs (Documents_load fs (new_documents s2 c) n)
     = map_sum id docs (Documents_load fs (new_documents s1 c) n)"
    unfolding new_documents_sources [of s2 c s1] Documents_load_sources
    by (cases "Documents_load fs (new_documents s1 c) n") simp_all
  show "map_sum id docs (fst (Documents_init lib s2 c fs w))
     = map_sum id docs (fst (Documents_init lib s1 c fs w))"
    unfolding init by (cases "Documents_init lib s1 c fs w" rule: prod.exhaust)
      (auto simp: map_sum_def split: sum.splits)
next
  assume "fs' ''datasets/xray_articles.json'' = fs ''datasets/xray_articles.json''"
  then show "Documents_load fs' self n = Documents_load fs self n"
    by (simp add: Documents_load_def)
qed

theorem store_independent_of_sources_witness:
  "fst (Documents_init spec_library (Some [[(''title'', ''T''), (''url'', ''U'')]]) recording_client example_fs [])
     = Inr (built_documents\<lparr>sources := Some [[(''title'', ''T''), (''url'', ''U'')]]\<rparr>)
   \<and> Documents_load (\<lambda>path. Inr (JArr two_documents)) (new_documents None recording_client) 500
     = Inr ((new_documents None recording_client)\<lparr>docs := five_passages\<rparr>)"
proof -
  have same: "(\<lambda>path. Inr (JArr two_documents)) ''datasets/xray_articles.json''
                = example_fs ''datasets/xray_articles.json''"
    by (simp add: example_fs_def)
  from store_independent_of_sources
         [where lib = spec_library and ?s1.0 = None and ?s2.0 = "Some [[(''title'', ''T''), (''url'', ''U'')]]"
            and c = recording_client and fs = example_fs and w = "[]"
            and fs' = "\<lambda>path. Inr (JArr two_documents)"
            and self = "new_documents None recording_client" and n = 500]
       same
  show ?thesis by (simp add: example_init example_load)
qed

end
